theory Spec2Isabelle
  imports Complex_Main "HOL-Library.Word"
begin

section \<open>Values\<close>

text \<open>
  Timestamps are integers counting milliseconds since the epoch, the unit of
  \<^verbatim>\<open>Date.now()\<close>.  Every reading of a clock (\<^verbatim>\<open>Date.now()\<close> in the store,
  \<^verbatim>\<open>NOW()\<close> in a statement) is an argument of the operation that takes it.
  A buffer is a list of bytes.
\<close>

type_synonym time = int
type_synonym bytes = "8 word list"

text \<open>
  JSON values as stored in the \<^verbatim>\<open>metadata JSONB\<close> column; numbers are restricted to
  integers.  A metadata object is a map from keys to values.
\<close>

datatype json =
    JNull
  | JBool bool
  | JNum int
  | JStr string
  | JArr "json list"
  | JObj "(string \<times> json) list"

type_synonym meta = "string \<rightharpoonup> json"

text \<open>
  A JavaScript \<^verbatim>\<open>Error\<close>: its message, and the \<^verbatim>\<open>code\<close> property that
  file-system and driver errors carry.  \<^verbatim>\<open>new Error(msg)\<close> has no code.
\<close>

datatype js_error = JsError (message: string) (code: "string option")

definition Error :: "string \<Rightarrow> js_error" where
  "Error msg = JsError msg None"

section \<open>The table\<close>

text \<open>
  One row of the table created by \<^verbatim>\<open>#ensureInitialized\<close>:
  \<^verbatim>\<open>session_id VARCHAR(255) PRIMARY KEY, session_data BYTEA NOT NULL,
  metadata JSONB DEFAULT '{}', created_at, updated_at TIMESTAMPTZ DEFAULT NOW(),
  expires_at TIMESTAMPTZ\<close>.
\<close>

record row =
  session_id :: string
  session_data :: bytes
  metadata :: meta
  created_at :: time
  updated_at :: time
  expires_at :: "time option"

text \<open>The filter \<^verbatim>\<open>expires_at IS NULL OR expires_at > NOW()\<close> and its complement
  \<^verbatim>\<open>expires_at IS NOT NULL AND expires_at <= NOW()\<close>.\<close>

definition is_active :: "time \<Rightarrow> row \<Rightarrow> bool" where
  "is_active now r = (case expires_at r of None \<Rightarrow> True | Some e \<Rightarrow> e > now)"

definition is_expired :: "time \<Rightarrow> row \<Rightarrow> bool" where
  "is_expired now r = (case expires_at r of None \<Rightarrow> False | Some e \<Rightarrow> e \<le> now)"

text \<open>
  The statements of the store, each as a function on the rows of the table.  A statement
  that reads returns the selected rows; a statement that writes returns the number of
  rows it affected and the new rows.
\<close>

text \<open>\<^verbatim>\<open>SELECT ... WHERE session_id = $1 AND (expires_at IS NULL OR expires_at > NOW())\<close>\<close>

definition sql_select_active :: "string \<Rightarrow> time \<Rightarrow> row list \<Rightarrow> row list" where
  "sql_select_active sid now rs = filter (\<lambda>r. session_id r = sid \<and> is_active now r) rs"

text \<open>
  \<^verbatim>\<open>INSERT ... VALUES ($1, $2, $3, $4) ON CONFLICT (session_id) DO UPDATE SET
  session_data = $2, metadata = $3, updated_at = NOW(), expires_at = $4\<close>.
  An inserted row takes the column defaults \<^verbatim>\<open>NOW()\<close> for both timestamps.

  The key goes into a \<^verbatim>\<open>VARCHAR(255)\<close> column.  A value of at most 255 characters is
  stored as it is.  A longer one is cut to 255 characters when what is cut off is all
  spaces, and is rejected otherwise.  The statement then inserts or updates under the
  stored key.
\<close>

definition value_too_long :: js_error where
  "value_too_long = JsError ''value too long for type character varying(255)'' (Some ''22001'')"

definition varchar255 :: "string \<Rightarrow> js_error + string" where
  "varchar255 s =
     (if length s \<le> 255 then Inr s
      else if list_all (\<lambda>c. c = CHR '' '') (drop 255 s) then Inr (take 255 s)
      else Inl value_too_long)"

definition upsert_rows ::
  "string \<Rightarrow> bytes \<Rightarrow> meta \<Rightarrow> time option \<Rightarrow> time \<Rightarrow> row list \<Rightarrow> row list" where
  "upsert_rows sid dat md ex now rs =
     (if sid \<in> set (map session_id rs) then
        map (\<lambda>r. if session_id r = sid
                  then r\<lparr>session_data := dat, metadata := md,
                         updated_at := now, expires_at := ex\<rparr>
                  else r) rs
      else
        rs @ [\<lparr>session_id = sid, session_data = dat, metadata = md,
                created_at = now, updated_at = now, expires_at = ex\<rparr>])"

definition sql_upsert ::
  "string \<Rightarrow> bytes \<Rightarrow> meta \<Rightarrow> time option \<Rightarrow> time \<Rightarrow> row list \<Rightarrow> js_error + (nat \<times> row list)" where
  "sql_upsert sid dat md ex now rs =
     (case varchar255 sid of
        Inl e \<Rightarrow> Inl e
      | Inr key \<Rightarrow> Inr (1, upsert_rows key dat md ex now rs))"

text \<open>\<^verbatim>\<open>UPDATE ... SET updated_at = NOW() WHERE session_id = $1\<close>\<close>

definition sql_touch :: "string \<Rightarrow> time \<Rightarrow> row list \<Rightarrow> nat \<times> row list" where
  "sql_touch sid now rs =
     (length (filter (\<lambda>r. session_id r = sid) rs),
      map (\<lambda>r. if session_id r = sid then r\<lparr>updated_at := now\<rparr> else r) rs)"

text \<open>\<^verbatim>\<open>DELETE FROM ... WHERE session_id = $1\<close>\<close>

definition sql_delete :: "string \<Rightarrow> row list \<Rightarrow> nat \<times> row list" where
  "sql_delete sid rs =
     (length (filter (\<lambda>r. session_id r = sid) rs),
      filter (\<lambda>r. session_id r \<noteq> sid) rs)"

text \<open>
  \<^verbatim>\<open>SELECT ... WHERE expires_at IS NULL OR expires_at > NOW() ORDER BY updated_at DESC\<close>.
  The order of rows with equal \<^verbatim>\<open>updated_at\<close> is not fixed by SQL; the model keeps
  them in table order.
\<close>

definition sql_select_all_active :: "time \<Rightarrow> row list \<Rightarrow> row list" where
  "sql_select_all_active now rs = sort_key (\<lambda>r. - updated_at r) (filter (is_active now) rs)"

text \<open>
  \<^verbatim>\<open>UPDATE ... SET metadata = metadata || $2, updated_at = NOW() WHERE session_id = $1
  AND (expires_at IS NULL OR expires_at > NOW())\<close>.  On two JSON objects \<^verbatim>\<open>||\<close> is the
  union of the keys, the right operand winning.
\<close>

definition sql_merge_metadata :: "string \<Rightarrow> meta \<Rightarrow> time \<Rightarrow> row list \<Rightarrow> nat \<times> row list" where
  "sql_merge_metadata sid md now rs =
     (length (filter (\<lambda>r. session_id r = sid \<and> is_active now r) rs),
      map (\<lambda>r. if session_id r = sid \<and> is_active now r
                then r\<lparr>metadata := metadata r ++ md, updated_at := now\<rparr>
                else r) rs)"

text \<open>\<^verbatim>\<open>DELETE FROM ... WHERE expires_at IS NOT NULL AND expires_at <= NOW()\<close>\<close>

definition sql_delete_expired :: "time \<Rightarrow> row list \<Rightarrow> nat \<times> row list" where
  "sql_delete_expired now rs =
     (length (filter (is_expired now) rs), filter (\<lambda>r. \<not> is_expired now r) rs)"

text \<open>The one row of aggregates that \<^verbatim>\<open>getStats\<close> selects.\<close>

record stats =
  total_sessions :: nat
  active_sessions :: nat
  expired_sessions :: nat
  avg_session_size :: "rat option"
  oldest_session :: "time option"
  latest_activity :: "time option"

definition sql_stats :: "time \<Rightarrow> row list \<Rightarrow> stats" where
  "sql_stats now rs =
     \<lparr>total_sessions = length rs,
      active_sessions = length (filter (is_active now) rs),
      expired_sessions = length (filter (is_expired now) rs),
      avg_session_size =
        (if rs = [] then None
         else Some (of_nat (sum_list (map (\<lambda>r. length (session_data r)) rs)) / of_nat (length rs))),
      oldest_session = (if rs = [] then None else Some (Min (set (map created_at rs)))),
      latest_activity = (if rs = [] then None else Some (Max (set (map updated_at rs))))\<rparr>"

section \<open>The connection pool\<close>

text \<open>
  The pool of the \<^verbatim>\<open>pg\<close> driver together with the database behind it: the tables by
  name, whether \<^verbatim>\<open>end()\<close> was called, the failures of the coming queries (the head
  is for the next query: \<open>Some e\<close> makes it throw \<open>e\<close>, \<open>None\<close> or an empty list lets
  it run), and the log of the queries issued so far.
\<close>

datatype sql =
    CREATE_SCHEMA
  | SELECT_ACTIVE_BY_ID
  | UPSERT
  | TOUCH
  | DELETE_BY_ID
  | SELECT_ALL_ACTIVE
  | MERGE_METADATA
  | DELETE_EXPIRED
  | SELECT_STATS

type_synonym tables = "string \<rightharpoonup> row list"

record pg_pool =
  tables :: tables
  ended :: bool
  faults :: "js_error option list"
  issued :: "sql list"

definition pool_ended_error :: js_error where
  "pool_ended_error = Error ''Cannot use a pool after calling end on the pool''"

definition undefined_table :: "string \<Rightarrow> js_error" where
  "undefined_table tn = JsError (''relation '' @ tn @ '' does not exist'') (Some ''42P01'')"

text \<open>\<^verbatim>\<open>pool.query(...)\<close>: one query, logged, failing when the pool has ended or a
  failure is due, and otherwise running the statement on the tables.\<close>

definition pool_query ::
  "pg_pool \<Rightarrow> sql \<Rightarrow> (tables \<Rightarrow> js_error + ('a \<times> tables)) \<Rightarrow> (js_error + 'a) \<times> pg_pool" where
  "pool_query p s run =
     (if ended p then (Inl pool_ended_error, p)
      else
        let p1 = p\<lparr>faults := tl (faults p), issued := issued p @ [s]\<rparr> in
        case faults p of
          Some e # _ \<Rightarrow> (Inl e, p1)
        | _ \<Rightarrow> (case run (tables p) of
                  Inl e \<Rightarrow> (Inl e, p1)
                | Inr (a, ts) \<Rightarrow> (Inr a, p1\<lparr>tables := ts\<rparr>)))"

text \<open>A statement on one table fails when the table does not exist.\<close>

definition on_table ::
  "string \<Rightarrow> (row list \<Rightarrow> js_error + ('a \<times> row list)) \<Rightarrow> tables \<Rightarrow> js_error + ('a \<times> tables)" where
  "on_table tn f ts =
     (case ts tn of
        None \<Rightarrow> Inl (undefined_table tn)
      | Some rs \<Rightarrow> (case f rs of
                     Inl e \<Rightarrow> Inl e
                   | Inr (a, rs') \<Rightarrow> Inr (a, ts(tn \<mapsto> rs'))))"

text \<open>\<^verbatim>\<open>CREATE TABLE IF NOT EXISTS ...; CREATE INDEX IF NOT EXISTS ...\<close>: the table is
  created empty when it is missing; the indexes hold no data of their own.\<close>

definition sql_create_schema :: "string \<Rightarrow> tables \<Rightarrow> js_error + (unit \<times> tables)" where
  "sql_create_schema tn ts =
     (case ts tn of None \<Rightarrow> Inr ((), ts(tn \<mapsto> [])) | Some rs \<Rightarrow> Inr ((), ts))"

section \<open>The file system\<close>

text \<open>
  The files by path, and for each of \<^verbatim>\<open>fs.access\<close>, \<^verbatim>\<open>fs.readFile\<close> and
  \<^verbatim>\<open>fs.writeFile\<close> the paths on which the call fails for a reason other than a missing
  file (permissions, a directory in the way, a full disk).
\<close>

record fs =
  files :: "string \<rightharpoonup> bytes"
  access_fault :: "string \<rightharpoonup> js_error"
  read_fault :: "string \<rightharpoonup> js_error"
  write_fault :: "string \<rightharpoonup> js_error"

definition enoent :: "string \<Rightarrow> js_error" where
  "enoent p = JsError (''ENOENT: no such file or directory, open '' @ p) (Some ''ENOENT'')"

definition fs_access :: "fs \<Rightarrow> string \<Rightarrow> js_error + unit" where
  "fs_access f p =
     (case access_fault f p of
        Some e \<Rightarrow> Inl e
      | None \<Rightarrow> (case files f p of None \<Rightarrow> Inl (enoent p) | Some _ \<Rightarrow> Inr ()))"

definition fs_readFile :: "fs \<Rightarrow> string \<Rightarrow> js_error + bytes" where
  "fs_readFile f p =
     (case read_fault f p of
        Some e \<Rightarrow> Inl e
      | None \<Rightarrow> (case files f p of None \<Rightarrow> Inl (enoent p) | Some d \<Rightarrow> Inr d))"

definition fs_writeFile :: "fs \<Rightarrow> string \<Rightarrow> bytes \<Rightarrow> (js_error + unit) \<times> fs" where
  "fs_writeFile f p d =
     (case write_fault f p of
        Some e \<Rightarrow> (Inl e, f)
      | None \<Rightarrow> (Inr (), f\<lparr>files := (files f)(p \<mapsto> d)\<rparr>))"

section \<open>The store\<close>

text \<open>
  The options of the constructor.  The connection parameters are opaque; \<^verbatim>\<open>new Pool\<close>
  belongs to the driver and is an argument of the constructor.
\<close>

type_synonym conn_config = string

record options =
  opt_pool :: "pg_pool option"
  opt_connectionConfig :: "conn_config option"
  opt_tableName :: "string option"
  opt_sessionTTL :: "int option"

record store =
  pool :: pg_pool
  initialized :: bool
  tableName :: string
  sessionTTL :: "int option"

text \<open>
  \<^verbatim>\<open>options.tableName || 'whatsapp_sessions'\<close> and \<^verbatim>\<open>options.sessionTTL || null\<close>:
  the empty string and the number zero are falsy and give the default.
\<close>

definition constructor :: "(conn_config \<Rightarrow> pg_pool) \<Rightarrow> options \<Rightarrow> js_error + store" where
  "constructor new_Pool opts =
     (let rest = (\<lambda>p.
            \<lparr>pool = p,
             initialized = False,
             tableName = (case opt_tableName opts of
                            None \<Rightarrow> ''whatsapp_sessions''
                          | Some t \<Rightarrow> if t = [] then ''whatsapp_sessions'' else t),
             sessionTTL = (case opt_sessionTTL opts of
                             None \<Rightarrow> None
                           | Some t \<Rightarrow> if t = 0 then None else Some t)\<rparr>)
      in case opt_pool opts of
           Some p \<Rightarrow> Inr (rest p)
         | None \<Rightarrow> (case opt_connectionConfig opts of
                      None \<Rightarrow> Inl (Error ''Either pool or connectionConfig must be provided'')
                    | Some c \<Rightarrow> Inr (rest (new_Pool c))))"

definition getSessionId :: "string \<Rightarrow> string" where
  "getSessionId session = ''whatsapp-'' @ session"

text \<open>\<^verbatim>\<open>row.session_id.replace(/^whatsapp-/, '')\<close>\<close>

definition strip_namespace :: "string \<Rightarrow> string" where
  "strip_namespace sid = (if take 9 sid = ''whatsapp-'' then drop 9 sid else sid)"

text \<open>A statement that only reads leaves the rows as they are; one that writes cannot
  fail on an existing table, the upsert apart.\<close>

definition reading :: "(row list \<Rightarrow> 'a) \<Rightarrow> row list \<Rightarrow> js_error + ('a \<times> row list)" where
  "reading f rs = Inr (f rs, rs)"

definition writing :: "(row list \<Rightarrow> 'a \<times> row list) \<Rightarrow> row list \<Rightarrow> js_error + ('a \<times> row list)" where
  "writing f rs = Inr (f rs)"

definition ensureInitialized :: "store \<Rightarrow> (js_error + unit) \<times> store" where
  "ensureInitialized st =
     (if initialized st then (Inr (), st)
      else case pool_query (pool st) CREATE_SCHEMA (sql_create_schema (tableName st)) of
             (Inl e, p) \<Rightarrow>
               (Inl (Error (''Failed to initialize database: '' @ message e)), st\<lparr>pool := p\<rparr>)
           | (Inr _, p) \<Rightarrow> (Inr (), st\<lparr>pool := p, initialized := True\<rparr>))"

text \<open>The logging of \<^verbatim>\<open>sessionExists\<close> has no effect on the store and is left out.\<close>

definition sessionExists :: "store \<Rightarrow> string \<Rightarrow> time \<Rightarrow> (js_error + bool) \<times> store" where
  "sessionExists st session now =
     (case ensureInitialized st of
        (Inl e, st1) \<Rightarrow> (Inl e, st1)
      | (Inr _, st1) \<Rightarrow>
          (let sessionId = getSessionId session in
           case pool_query (pool st1) SELECT_ACTIVE_BY_ID
                  (on_table (tableName st1) (reading (sql_select_active sessionId now))) of
             (Inl e, p) \<Rightarrow>
               (Inl (Error (''Failed to check session existence: '' @ message e)), st1\<lparr>pool := p\<rparr>)
           | (Inr result, p) \<Rightarrow> (Inr (length result > 0), st1\<lparr>pool := p\<rparr>)))"

text \<open>
  The \<^verbatim>\<open>catch\<close> of \<^verbatim>\<open>save\<close>, which every error thrown inside its \<^verbatim>\<open>try\<close> reaches:
  the file calls and the query alike.
\<close>

definition save_catch :: "string \<Rightarrow> js_error \<Rightarrow> js_error" where
  "save_catch filePath e =
     (if code e = Some ''ENOENT'' then Error (''Session file not found: '' @ filePath)
      else Error (''Failed to save session: '' @ message e))"

text \<open>
  \<^verbatim>\<open>save\<close> reads the clock twice (\<open>tMod\<close> for \<^verbatim>\<open>lastModified\<close>, \<open>tExp\<close> for the
  expiration); \<open>tDb\<close> is the \<^verbatim>\<open>NOW()\<close> of its statement.
\<close>

definition save ::
  "store \<Rightarrow> fs \<Rightarrow> string \<Rightarrow> time \<Rightarrow> time \<Rightarrow> time \<Rightarrow> (js_error + unit) \<times> store" where
  "save st fsys session tMod tExp tDb =
     (case ensureInitialized st of
        (Inl e, st1) \<Rightarrow> (Inl e, st1)
      | (Inr _, st1) \<Rightarrow>
          (let sessionId = getSessionId session;
               filePath = session @ ''.zip'' in
           case fs_access fsys filePath of
             Inl e \<Rightarrow> (Inl (save_catch filePath e), st1)
           | Inr _ \<Rightarrow>
               (case fs_readFile fsys filePath of
                  Inl e \<Rightarrow> (Inl (save_catch filePath e), st1)
                | Inr sessionData \<Rightarrow>
                    (let md = [''originalFilename'' \<mapsto> JStr (session @ ''.zip''),
                               ''size'' \<mapsto> JNum (int (length sessionData)),
                               ''lastModified'' \<mapsto> JNum tMod];
                         expiresAt = (case sessionTTL st1 of
                                        None \<Rightarrow> None
                                      | Some ttl \<Rightarrow>
                                          if ttl \<noteq> 0 then Some (tExp + ttl * 1000) else None)
                     in case pool_query (pool st1) UPSERT
                               (on_table (tableName st1)
                                  (sql_upsert sessionId sessionData md expiresAt tDb)) of
                          (Inl e, p) \<Rightarrow> (Inl (save_catch filePath e), st1\<lparr>pool := p\<rparr>)
                        | (Inr _, p) \<Rightarrow> (Inr (), st1\<lparr>pool := p\<rparr>)))))"

definition extract_catch :: "js_error \<Rightarrow> js_error" where
  "extract_catch e = Error (''Failed to extract session: '' @ message e)"

text \<open>
  \<^verbatim>\<open>extract\<close> (here \<open>extract_session\<close>) issues two statements, each with its own \<^verbatim>\<open>NOW()\<close>: \<open>tSel\<close> for the
  select, \<open>tUpd\<close> for the update of the access time.  A write that fails leaves the file
  system as it was.
\<close>

definition extract_session ::
  "store \<Rightarrow> fs \<Rightarrow> string \<Rightarrow> string \<Rightarrow> time \<Rightarrow> time \<Rightarrow> (js_error + meta) \<times> store \<times> fs" where
  "extract_session st fsys session path tSel tUpd =
     (case ensureInitialized st of
        (Inl e, st1) \<Rightarrow> (Inl e, st1, fsys)
      | (Inr _, st1) \<Rightarrow>
          (let sessionId = getSessionId session in
           case pool_query (pool st1) SELECT_ACTIVE_BY_ID
                  (on_table (tableName st1) (reading (sql_select_active sessionId tSel))) of
             (Inl e, p) \<Rightarrow> (Inl (extract_catch e), st1\<lparr>pool := p\<rparr>, fsys)
           | (Inr result, p) \<Rightarrow>
               (case result of
                  [] \<Rightarrow>
                    (Inl (extract_catch (Error (''Session '' @ session @ '' not found or expired''))),
                     st1\<lparr>pool := p\<rparr>, fsys)
                | r # _ \<Rightarrow>
                    (case fs_writeFile fsys path (session_data r) of
                       (Inl e, fsys1) \<Rightarrow> (Inl (extract_catch e), st1\<lparr>pool := p\<rparr>, fsys1)
                     | (Inr _, fsys1) \<Rightarrow>
                         (case pool_query p TOUCH
                                 (on_table (tableName st1) (writing (sql_touch sessionId tUpd))) of
                            (Inl e, p2) \<Rightarrow> (Inl (extract_catch e), st1\<lparr>pool := p2\<rparr>, fsys1)
                          | (Inr _, p2) \<Rightarrow> (Inr (metadata r), st1\<lparr>pool := p2\<rparr>, fsys1))))))"

definition delete :: "store \<Rightarrow> string \<Rightarrow> (js_error + bool) \<times> store" where
  "delete st session =
     (case ensureInitialized st of
        (Inl e, st1) \<Rightarrow> (Inl e, st1)
      | (Inr _, st1) \<Rightarrow>
          (let sessionId = getSessionId session in
           case pool_query (pool st1) DELETE_BY_ID
                  (on_table (tableName st1) (writing (sql_delete sessionId))) of
             (Inl e, p) \<Rightarrow>
               (Inl (Error (''Failed to delete session: '' @ message e)), st1\<lparr>pool := p\<rparr>)
           | (Inr rowCount, p) \<Rightarrow> (Inr (rowCount > 0), st1\<lparr>pool := p\<rparr>)))"

text \<open>An entry of the listing: \<^verbatim>\<open>{session, metadata, createdAt, updatedAt, expiresAt}\<close>.\<close>

record session_info =
  info_session :: string
  info_metadata :: meta
  createdAt :: time
  updatedAt :: time
  expiresAt :: "time option"

definition to_info :: "row \<Rightarrow> session_info" where
  "to_info r =
     \<lparr>info_session = strip_namespace (session_id r),
      info_metadata = metadata r,
      createdAt = created_at r,
      updatedAt = updated_at r,
      expiresAt = expires_at r\<rparr>"

definition listSessions :: "store \<Rightarrow> time \<Rightarrow> (js_error + session_info list) \<times> store" where
  "listSessions st now =
     (case ensureInitialized st of
        (Inl e, st1) \<Rightarrow> (Inl e, st1)
      | (Inr _, st1) \<Rightarrow>
          (case pool_query (pool st1) SELECT_ALL_ACTIVE
                  (on_table (tableName st1) (reading (sql_select_all_active now))) of
             (Inl e, p) \<Rightarrow>
               (Inl (Error (''Failed to list sessions: '' @ message e)), st1\<lparr>pool := p\<rparr>)
           | (Inr result, p) \<Rightarrow> (Inr (map to_info result), st1\<lparr>pool := p\<rparr>)))"

text \<open>The four columns that \<^verbatim>\<open>getSessionMetadata\<close> selects.\<close>

record session_meta =
  sm_metadata :: meta
  sm_created_at :: time
  sm_updated_at :: time
  sm_expires_at :: "time option"

definition to_session_meta :: "row \<Rightarrow> session_meta" where
  "to_session_meta r =
     \<lparr>sm_metadata = metadata r, sm_created_at = created_at r,
      sm_updated_at = updated_at r, sm_expires_at = expires_at r\<rparr>"

definition getSessionMetadata ::
  "store \<Rightarrow> string \<Rightarrow> time \<Rightarrow> (js_error + session_meta option) \<times> store" where
  "getSessionMetadata st session now =
     (case ensureInitialized st of
        (Inl e, st1) \<Rightarrow> (Inl e, st1)
      | (Inr _, st1) \<Rightarrow>
          (let sessionId = getSessionId session in
           case pool_query (pool st1) SELECT_ACTIVE_BY_ID
                  (on_table (tableName st1) (reading (sql_select_active sessionId now))) of
             (Inl e, p) \<Rightarrow>
               (Inl (Error (''Failed to get session metadata: '' @ message e)), st1\<lparr>pool := p\<rparr>)
           | (Inr result, p) \<Rightarrow>
               (Inr (case result of [] \<Rightarrow> None | r # _ \<Rightarrow> Some (to_session_meta r)),
                st1\<lparr>pool := p\<rparr>)))"

definition updateSessionMetadata ::
  "store \<Rightarrow> string \<Rightarrow> meta \<Rightarrow> time \<Rightarrow> (js_error + bool) \<times> store" where
  "updateSessionMetadata st session md now =
     (case ensureInitialized st of
        (Inl e, st1) \<Rightarrow> (Inl e, st1)
      | (Inr _, st1) \<Rightarrow>
          (let sessionId = getSessionId session in
           case pool_query (pool st1) MERGE_METADATA
                  (on_table (tableName st1) (writing (sql_merge_metadata sessionId md now))) of
             (Inl e, p) \<Rightarrow>
               (Inl (Error (''Failed to update session metadata: '' @ message e)), st1\<lparr>pool := p\<rparr>)
           | (Inr rowCount, p) \<Rightarrow> (Inr (rowCount > 0), st1\<lparr>pool := p\<rparr>)))"

definition cleanupExpiredSessions :: "store \<Rightarrow> time \<Rightarrow> (js_error + nat) \<times> store" where
  "cleanupExpiredSessions st now =
     (case ensureInitialized st of
        (Inl e, st1) \<Rightarrow> (Inl e, st1)
      | (Inr _, st1) \<Rightarrow>
          (case pool_query (pool st1) DELETE_EXPIRED
                  (on_table (tableName st1) (writing (sql_delete_expired now))) of
             (Inl e, p) \<Rightarrow>
               (Inl (Error (''Failed to cleanup expired sessions: '' @ message e)), st1\<lparr>pool := p\<rparr>)
           | (Inr rowCount, p) \<Rightarrow> (Inr rowCount, st1\<lparr>pool := p\<rparr>)))"

definition getStats :: "store \<Rightarrow> time \<Rightarrow> (js_error + stats) \<times> store" where
  "getStats st now =
     (case ensureInitialized st of
        (Inl e, st1) \<Rightarrow> (Inl e, st1)
      | (Inr _, st1) \<Rightarrow>
          (case pool_query (pool st1) SELECT_STATS
                  (on_table (tableName st1) (reading (sql_stats now))) of
             (Inl e, p) \<Rightarrow>
               (Inl (Error (''Failed to get stats: '' @ message e)), st1\<lparr>pool := p\<rparr>)
           | (Inr result, p) \<Rightarrow> (Inr result, st1\<lparr>pool := p\<rparr>)))"

definition close :: "store \<Rightarrow> store" where
  "close st = (if \<not> ended (pool st) then st\<lparr>pool := (pool st)\<lparr>ended := True\<rparr>\<rparr> else st)"

section \<open>States of the store\<close>

text \<open>
  The rows of the store's table (none when the table does not exist), and the store after
  its schema initialization has run.
\<close>

definition table_rows :: "store \<Rightarrow> row list" where
  "table_rows st = (case tables (pool st) (tableName st) of None \<Rightarrow> [] | Some rs \<Rightarrow> rs)"

definition init :: "store \<Rightarrow> store" where
  "init st = snd (ensureInitialized st)"

text \<open>
  A store is healthy when its pool is open, no query failure is due, and its table exists
  if the store believes so.  The primary key makes the keys of a table distinct; a table
  that only this store writes holds namespaced keys only.
\<close>

definition healthy :: "store \<Rightarrow> bool" where
  "healthy st =
     (\<not> ended (pool st) \<and> faults (pool st) = [] \<and>
      (initialized st \<longrightarrow> tables (pool st) (tableName st) \<noteq> None))"

definition primary_key :: "row list \<Rightarrow> bool" where
  "primary_key rs = distinct (map session_id rs)"

definition namespaced :: "row list \<Rightarrow> bool" where
  "namespaced rs = list_all (\<lambda>r. take 9 (session_id r) = ''whatsapp-'') rs"

text \<open>The row of a session, if the table has one.\<close>

definition row_of :: "store \<Rightarrow> string \<Rightarrow> row option" where
  "row_of st session = find (\<lambda>r. session_id r = getSessionId session) (table_rows st)"

text \<open>The row stored under a key.  \<^verbatim>\<open>save\<close> stores a session under the key that
  the column makes of the namespaced name.\<close>

definition row_by_key :: "store \<Rightarrow> string \<Rightarrow> row option" where
  "row_by_key st k = find (\<lambda>r. session_id r = k) (table_rows st)"

text \<open>The queries that an operation added to the log of the pool.\<close>

definition issued_since :: "store \<Rightarrow> store \<Rightarrow> sql list" where
  "issued_since st st' = drop (length (issued (pool st))) (issued (pool st'))"

text \<open>
  The store after one query that left the rows \<open>rs\<close> in its table; the metadata and the
  expiration that \<^verbatim>\<open>save\<close> computes.
\<close>

definition after_query :: "store \<Rightarrow> sql \<Rightarrow> row list \<Rightarrow> store" where
  "after_query st s rs =
     st\<lparr>pool := (pool st)\<lparr>tables := (tables (pool st))(tableName st \<mapsto> rs),
                           issued := issued (pool st) @ [s]\<rparr>\<rparr>"

definition saved_metadata :: "string \<Rightarrow> bytes \<Rightarrow> time \<Rightarrow> meta" where
  "saved_metadata session sessionData tMod =
     [''originalFilename'' \<mapsto> JStr (session @ ''.zip''),
      ''size'' \<mapsto> JNum (int (length sessionData)),
      ''lastModified'' \<mapsto> JNum tMod]"

definition saved_expiresAt :: "store \<Rightarrow> time \<Rightarrow> time option" where
  "saved_expiresAt st tExp =
     (case sessionTTL st of
        None \<Rightarrow> None
      | Some ttl \<Rightarrow> if ttl \<noteq> 0 then Some (tExp + ttl * 1000) else None)"

text \<open>The archive of a session is in place and readable.\<close>

definition archive_at :: "fs \<Rightarrow> string \<Rightarrow> bytes \<Rightarrow> bool" where
  "archive_at fsys session d =
     (files fsys (session @ ''.zip'') = Some d \<and>
      access_fault fsys (session @ ''.zip'') = None \<and>
      read_fault fsys (session @ ''.zip'') = None)"

text \<open>The schema query that precedes the statement of an operation on a store that is
  not initialized yet.\<close>

definition schema_queries :: "store \<Rightarrow> sql list" where
  "schema_queries st = (if initialized st then [] else [CREATE_SCHEMA])"

section \<open>Example states\<close>

text \<open>
  A pool on an empty database, the store that the constructor builds on it, a file system
  holding one archive, and the store after it saved the session \<open>s\<close> at time 0.
\<close>

definition fresh_pool :: pg_pool where
  "fresh_pool = \<lparr>tables = Map.empty, ended = False, faults = [], issued = []\<rparr>"

definition fresh_store :: "int option \<Rightarrow> store" where
  "fresh_store ttl =
     \<lparr>pool = fresh_pool, initialized = False, tableName = ''whatsapp_sessions'',
      sessionTTL = ttl\<rparr>"

definition archive_fs :: "string \<Rightarrow> bytes \<Rightarrow> fs" where
  "archive_fs session d =
     \<lparr>files = [session @ ''.zip'' \<mapsto> d], access_fault = Map.empty,
      read_fault = Map.empty, write_fault = Map.empty\<rparr>"

definition saved_store :: "int option \<Rightarrow> store" where
  "saved_store ttl = snd (save (fresh_store ttl) (archive_fs ''s'' [1, 2, 3]) ''s'' 0 0 0)"

text \<open>A name of 247 characters that ends in a space: its key has 256 characters.\<close>

definition long_name :: string where
  "long_name = replicate 246 (CHR ''a'') @ '' ''"

text \<open>A store on a table that holds one session with the metadata \<^verbatim>\<open>{a:1,b:2}\<close>.\<close>

definition ab_row :: row where
  "ab_row =
     \<lparr>session_id = ''whatsapp-s'', session_data = [1, 2, 3],
      metadata = [''a'' \<mapsto> JNum 1, ''b'' \<mapsto> JNum 2],
      created_at = 0, updated_at = 0, expires_at = None\<rparr>"

definition ab_store :: store where
  "ab_store =
     \<lparr>pool = fresh_pool\<lparr>tables := [''whatsapp_sessions'' \<mapsto> [ab_row]]\<rparr>,
      initialized = True, tableName = ''whatsapp_sessions'', sessionTTL = None\<rparr>"

section \<open>Properties of the model\<close>

subsection \<open>Queries of a healthy store\<close>

lemma pool_query_ok:
  "\<not> ended p \<Longrightarrow> faults p = [] \<Longrightarrow>
   pool_query p s run =
     (case run (tables p) of
        Inl e \<Rightarrow> (Inl e, p\<lparr>issued := issued p @ [s]\<rparr>)
      | Inr (a, ts) \<Rightarrow> (Inr a, p\<lparr>tables := ts, issued := issued p @ [s]\<rparr>))"
  by (cases p) (auto simp: pool_query_def Let_def split: sum.splits)

lemma on_table_reading:
  "ts tn = Some rs \<Longrightarrow> on_table tn (reading f) ts = Inr (f rs, ts(tn \<mapsto> rs))"
  by (simp add: on_table_def reading_def)

lemma on_table_writing:
  "ts tn = Some rs \<Longrightarrow> on_table tn (writing f) ts = Inr (fst (f rs), ts(tn \<mapsto> snd (f rs)))"
  by (simp add: on_table_def writing_def split: prod.splits)

lemma varchar255_short: "length s \<le> 255 \<Longrightarrow> varchar255 s = Inr s"
  by (simp add: varchar255_def)

lemma on_table_upsert:
  "ts tn = Some rs \<Longrightarrow> varchar255 sid = Inr k \<Longrightarrow>
   on_table tn (sql_upsert sid d md ex now) ts = Inr (1, ts(tn \<mapsto> upsert_rows k d md ex now rs))"
  by (simp add: on_table_def sql_upsert_def)

lemma ensureInitialized_healthy:
  assumes "healthy st"
  shows "ensureInitialized st = (Inr (), init st)"
    and "initialized (init st)"
    and "healthy (init st)"
    and "tableName (init st) = tableName st"
    and "sessionTTL (init st) = sessionTTL st"
    and "tables (pool (init st)) (tableName st) = Some (table_rows st)"
    and "issued (pool (init st)) =
           issued (pool st) @ (if initialized st then [] else [CREATE_SCHEMA])"
  using assms
  by (auto simp: healthy_def init_def ensureInitialized_def pool_query_ok sql_create_schema_def
      table_rows_def split: option.splits)

lemma table_rows_init: "healthy st \<Longrightarrow> table_rows (init st) = table_rows st"
  using ensureInitialized_healthy(4,6)[of st] by (simp add: table_rows_def)

lemma init_idem: "initialized st \<Longrightarrow> init st = st"
  by (simp add: init_def ensureInitialized_def)

lemma after_query_simps:
  "tableName (after_query st s rs) = tableName st"
  "sessionTTL (after_query st s rs) = sessionTTL st"
  "initialized (after_query st s rs) = initialized st"
  "table_rows (after_query st s rs) = rs"
  "issued (pool (after_query st s rs)) = issued (pool st) @ [s]"
  "healthy st \<Longrightarrow> healthy (after_query st s rs)"
  by (simp_all add: after_query_def table_rows_def healthy_def)

lemma query_healthy:
  assumes "healthy st"
  shows "pool_query (pool (init st)) s (on_table (tableName st) (reading f)) =
           (Inr (f (table_rows st)), pool (after_query (init st) s (table_rows st)))"
    and "pool_query (pool (init st)) s (on_table (tableName st) (writing g)) =
           (Inr (fst (g (table_rows st))), pool (after_query (init st) s (snd (g (table_rows st)))))"
    and "varchar255 sid = Inr k \<Longrightarrow>
         pool_query (pool (init st)) s (on_table (tableName st) (sql_upsert sid d md ex now)) =
           (Inr 1, pool (after_query (init st) s (upsert_rows k d md ex now (table_rows st))))"
proof -
  note h = ensureInitialized_healthy[OF assms]
  have p: "\<not> ended (pool (init st))" "faults (pool (init st)) = []"
    using h(3) by (auto simp: healthy_def)
  show "pool_query (pool (init st)) s (on_table (tableName st) (reading f)) =
           (Inr (f (table_rows st)), pool (after_query (init st) s (table_rows st)))"
    by (simp add: pool_query_ok[OF p] on_table_reading h(6) after_query_def h(4))
  show "pool_query (pool (init st)) s (on_table (tableName st) (writing g)) =
           (Inr (fst (g (table_rows st))), pool (after_query (init st) s (snd (g (table_rows st)))))"
    by (simp add: pool_query_ok[OF p] on_table_writing h(6) after_query_def h(4))
  show "varchar255 sid = Inr k \<Longrightarrow>
         pool_query (pool (init st)) s (on_table (tableName st) (sql_upsert sid d md ex now)) =
           (Inr 1, pool (after_query (init st) s (upsert_rows k d md ex now (table_rows st))))"
    by (simp add: pool_query_ok[OF p] on_table_upsert h(6) after_query_def h(4))
qed

lemma set_pool_after_query:
  "st\<lparr>pool := pool (after_query st s rs)\<rparr> = after_query st s rs"
  by (simp add: after_query_def)

lemma sessionExists_healthy:
  assumes "healthy st"
  shows "sessionExists st session now =
           (Inr (sql_select_active (getSessionId session) now (table_rows st) \<noteq> []),
            after_query (init st) SELECT_ACTIVE_BY_ID (table_rows st))"
  using ensureInitialized_healthy(1,4)[OF assms]
  by (simp add: sessionExists_def query_healthy[OF assms] set_pool_after_query)

lemma getSessionMetadata_healthy:
  assumes "healthy st"
  shows "getSessionMetadata st session now =
           (Inr (case sql_select_active (getSessionId session) now (table_rows st) of
                   [] \<Rightarrow> None | r # _ \<Rightarrow> Some (to_session_meta r)),
            after_query (init st) SELECT_ACTIVE_BY_ID (table_rows st))"
  using ensureInitialized_healthy(1,4)[OF assms]
  by (simp add: getSessionMetadata_def query_healthy[OF assms] set_pool_after_query)

lemma listSessions_healthy:
  assumes "healthy st"
  shows "listSessions st now =
           (Inr (map to_info (sql_select_all_active now (table_rows st))),
            after_query (init st) SELECT_ALL_ACTIVE (table_rows st))"
  using ensureInitialized_healthy(1,4)[OF assms]
  by (simp add: listSessions_def query_healthy[OF assms] set_pool_after_query)

lemma delete_healthy:
  assumes "healthy st"
  shows "delete st session =
           (Inr (fst (sql_delete (getSessionId session) (table_rows st)) > 0),
            after_query (init st) DELETE_BY_ID (snd (sql_delete (getSessionId session) (table_rows st))))"
  using ensureInitialized_healthy(1,4)[OF assms]
  by (simp add: delete_def query_healthy[OF assms] set_pool_after_query)

lemma updateSessionMetadata_healthy:
  assumes "healthy st"
  shows "updateSessionMetadata st session md now =
           (Inr (fst (sql_merge_metadata (getSessionId session) md now (table_rows st)) > 0),
            after_query (init st) MERGE_METADATA
              (snd (sql_merge_metadata (getSessionId session) md now (table_rows st))))"
  using ensureInitialized_healthy(1,4)[OF assms]
  by (simp add: updateSessionMetadata_def query_healthy[OF assms] set_pool_after_query)

lemma cleanupExpiredSessions_healthy:
  assumes "healthy st"
  shows "cleanupExpiredSessions st now =
           (Inr (fst (sql_delete_expired now (table_rows st))),
            after_query (init st) DELETE_EXPIRED (snd (sql_delete_expired now (table_rows st))))"
  using ensureInitialized_healthy(1,4)[OF assms]
  by (simp add: cleanupExpiredSessions_def query_healthy[OF assms] set_pool_after_query)

lemma getStats_healthy:
  assumes "healthy st"
  shows "getStats st now =
           (Inr (sql_stats now (table_rows st)),
            after_query (init st) SELECT_STATS (table_rows st))"
  using ensureInitialized_healthy(1,4)[OF assms]
  by (simp add: getStats_def query_healthy[OF assms] set_pool_after_query)

lemma save_stored:
  assumes "healthy st" and "archive_at fsys session d"
    and "varchar255 (getSessionId session) = Inr k"
  shows "save st fsys session tMod tExp tDb =
           (Inr (),
            after_query (init st) UPSERT
              (upsert_rows k d (saved_metadata session d tMod)
                 (saved_expiresAt st tExp) tDb (table_rows st)))"
  using ensureInitialized_healthy(1,4,5)[OF assms(1)] assms(2)
  by (simp add: save_def query_healthy(3)[OF assms(1,3)] set_pool_after_query archive_at_def
      fs_access_def fs_readFile_def saved_metadata_def saved_expiresAt_def)

lemma save_healthy:
  assumes "healthy st" and "archive_at fsys session d" and "length (getSessionId session) \<le> 255"
  shows "save st fsys session tMod tExp tDb =
           (Inr (),
            after_query (init st) UPSERT
              (upsert_rows (getSessionId session) d (saved_metadata session d tMod)
                 (saved_expiresAt st tExp) tDb (table_rows st)))"
  by (rule save_stored[OF assms(1,2) varchar255_short[OF assms(3)]])

lemma extract_healthy:
  assumes "healthy st"
  shows "extract_session st fsys session path tSel tUpd =
    (case sql_select_active (getSessionId session) tSel (table_rows st) of
       [] \<Rightarrow> (Inl (extract_catch (Error (''Session '' @ session @ '' not found or expired''))),
              after_query (init st) SELECT_ACTIVE_BY_ID (table_rows st), fsys)
     | r # _ \<Rightarrow>
         (case write_fault fsys path of
            Some e \<Rightarrow> (Inl (extract_catch e),
                       after_query (init st) SELECT_ACTIVE_BY_ID (table_rows st), fsys)
          | None \<Rightarrow>
              (Inr (metadata r),
               after_query (after_query (init st) SELECT_ACTIVE_BY_ID (table_rows st)) TOUCH
                 (snd (sql_touch (getSessionId session) tUpd (table_rows st))),
               fsys\<lparr>files := (files fsys)(path \<mapsto> session_data r)\<rparr>)))"
proof -
  let ?st1 = "after_query (init st) SELECT_ACTIVE_BY_ID (table_rows st)"
  note h = ensureInitialized_healthy[OF assms]
  have h1: "healthy ?st1" "initialized ?st1" "tableName ?st1 = tableName st"
    "table_rows ?st1 = table_rows st"
    using h(2,3,4) by (simp_all add: after_query_simps)
  have q2: "pool_query (pool ?st1) TOUCH (on_table (tableName st) (writing g)) =
      (Inr (fst (g (table_rows st))), pool (after_query ?st1 TOUCH (snd (g (table_rows st)))))" for g
    using query_healthy(2)[OF h1(1), of TOUCH g] h1(2,3,4) by (simp add: init_idem)
  have sp: "(init st)\<lparr>pool := pool (after_query ?st1 TOUCH rs)\<rparr> = after_query ?st1 TOUCH rs" for rs
    by (simp add: after_query_def)
  show ?thesis
    using h(1,4)
    by (simp add: extract_session_def query_healthy(1)[OF assms] set_pool_after_query q2 sp
        fs_writeFile_def split: list.splits option.splits)
qed

subsection \<open>Rows of a session\<close>

lemma row_of_after_query:
  "row_of (after_query st s rs) session = find (\<lambda>r. session_id r = getSessionId session) rs"
  by (simp add: row_of_def after_query_simps)

lemma row_of_None_iff:
  "row_of st session = None \<longleftrightarrow> \<not> (\<exists>r\<in>set (table_rows st). session_id r = getSessionId session)"
  by (auto simp: row_of_def find_None_iff)

lemma save_stored_after:
  assumes "healthy st" and "archive_at fsys session d"
    and "varchar255 (getSessionId session) = Inr k"
  shows "fst (save st fsys session tMod tExp tDb) = Inr ()"
    and "healthy (snd (save st fsys session tMod tExp tDb))"
    and "initialized (snd (save st fsys session tMod tExp tDb))"
    and "table_rows (snd (save st fsys session tMod tExp tDb)) =
           upsert_rows k d (saved_metadata session d tMod)
             (saved_expiresAt st tExp) tDb (table_rows st)"
    and "sessionTTL (snd (save st fsys session tMod tExp tDb)) = sessionTTL st"
  using ensureInitialized_healthy(2,3,5)[OF assms(1)]
  by (simp_all add: save_stored[OF assms] after_query_simps)

lemma save_healthy_after:
  assumes "healthy st" and "archive_at fsys session d" and "length (getSessionId session) \<le> 255"
  shows "fst (save st fsys session tMod tExp tDb) = Inr ()"
    and "healthy (snd (save st fsys session tMod tExp tDb))"
    and "initialized (snd (save st fsys session tMod tExp tDb))"
    and "table_rows (snd (save st fsys session tMod tExp tDb)) =
           upsert_rows (getSessionId session) d (saved_metadata session d tMod)
             (saved_expiresAt st tExp) tDb (table_rows st)"
    and "sessionTTL (snd (save st fsys session tMod tExp tDb)) = sessionTTL st"
  using ensureInitialized_healthy(2,3,5)[OF assms(1)]
  by (simp_all add: save_healthy[OF assms] after_query_simps)

lemma fresh_store_healthy: "healthy (fresh_store ttl)" "table_rows (fresh_store ttl) = []"
  by (simp_all add: healthy_def fresh_store_def fresh_pool_def table_rows_def)

lemma archive_fs_at: "archive_at (archive_fs session d) session d"
  by (simp add: archive_at_def archive_fs_def)

lemma saved_store_facts:
  "healthy (saved_store ttl)"
  "initialized (saved_store ttl)"
  "sessionTTL (saved_store ttl) = ttl"
  "table_rows (saved_store ttl) =
     [\<lparr>session_id = ''whatsapp-s'', session_data = [1, 2, 3],
       metadata = saved_metadata ''s'' [1, 2, 3] 0, created_at = 0, updated_at = 0,
       expires_at = saved_expiresAt (fresh_store ttl) 0\<rparr>]"
  unfolding saved_store_def
  by (simp_all add: save_healthy_after[OF fresh_store_healthy(1) archive_fs_at]
      getSessionId_def fresh_store_healthy upsert_rows_def) (simp add: fresh_store_def)

text \<open>
  Claim C6.  \<^verbatim>\<open>delete\<close> removes the row of a session whatever its expiration: its
  statement has no filter on \<^verbatim>\<open>expires_at\<close> and reads no clock.  It returns true
  exactly when the table had a row for the name, so true for an expired session that was
  not cleaned up yet, and false, without raising, for a name with no row.
\<close>

theorem delete_bypasses_ttl:
  assumes "healthy st" and "delete st session = (res, st')"
  shows "res = Inr (row_of st session \<noteq> None) \<and>
         (\<forall>r now. row_of st session = Some r \<and> is_expired now r \<longrightarrow> res = Inr True) \<and>
         row_of st' session = None \<and>
         table_rows st' = filter (\<lambda>r. session_id r \<noteq> getSessionId session) (table_rows st)"
proof -
  from assms have res: "res = Inr (0 < fst (sql_delete (getSessionId session) (table_rows st)))"
    and st': "st' = after_query (init st) DELETE_BY_ID
                 (snd (sql_delete (getSessionId session) (table_rows st)))"
    by (simp_all add: delete_healthy)
  have 1: "res = Inr (row_of st session \<noteq> None)"
    unfolding res by (auto simp: sql_delete_def filter_empty_conv row_of_None_iff)
  have 2: "row_of st' session = None"
    unfolding st' by (simp add: row_of_after_query sql_delete_def find_None_iff)
  have 3: "table_rows st' = filter (\<lambda>r. session_id r \<noteq> getSessionId session) (table_rows st)"
    unfolding st' by (simp add: after_query_simps sql_delete_def)
  from 1 2 3 show ?thesis by simp
qed

theorem delete_bypasses_ttl_witness:
  "healthy (saved_store (Some 1)) \<and>
   map_option expires_at (row_of (saved_store (Some 1)) ''s'') = Some (Some 1000) \<and>
   fst (delete (saved_store (Some 1)) ''s'') = Inr True \<and>
   row_of (snd (delete (saved_store (Some 1)) ''s'')) ''s'' = None \<and>
   fst (delete (saved_store (Some 1)) ''t'') = Inr False"
  using delete_bypasses_ttl[OF saved_store_facts(1) surjective_pairing, of "Some 1" "''s''"]
    delete_bypasses_ttl[OF saved_store_facts(1) surjective_pairing, of "Some 1" "''t''"]
  by (simp add: saved_store_facts row_of_def getSessionId_def saved_expiresAt_def fresh_store_def)

subsection \<open>Metadata\<close>

lemma find_map_same:
  "(\<And>x. P (f x) = P x) \<Longrightarrow> find P (map f xs) = map_option f (find P xs)"
  by (induction xs) auto

lemma find_append_None: "find P xs = None \<Longrightarrow> find P (xs @ ys) = find P ys"
  by (induction xs) (auto split: if_splits)

lemma update_healthy_after:
  assumes "healthy st"
  shows "fst (updateSessionMetadata st session md now) =
           Inr (0 < fst (sql_merge_metadata (getSessionId session) md now (table_rows st)))"
    and "healthy (snd (updateSessionMetadata st session md now))"
    and "table_rows (snd (updateSessionMetadata st session md now)) =
           snd (sql_merge_metadata (getSessionId session) md now (table_rows st))"
  using ensureInitialized_healthy(3)[OF assms]
  by (simp_all add: updateSessionMetadata_healthy[OF assms] after_query_simps)

lemma row_of_update:
  assumes "healthy st" and "row_of st session = Some r"
  shows "row_of (snd (updateSessionMetadata st session md now)) session =
           Some (if is_active now r then r\<lparr>metadata := metadata r ++ md, updated_at := now\<rparr> else r)"
    and "is_active now r \<Longrightarrow> fst (updateSessionMetadata st session md now) = Inr True"
proof -
  let ?sid = "getSessionId session"
  let ?f = "\<lambda>r. if session_id r = ?sid \<and> is_active now r
                  then r\<lparr>metadata := metadata r ++ md, updated_at := now\<rparr> else r"
  from assms(2) have r: "find (\<lambda>r. session_id r = ?sid) (table_rows st) = Some r"
    by (simp add: row_of_def)
  then have sid: "session_id r = ?sid" and mem: "r \<in> set (table_rows st)"
    by (auto simp: find_Some_iff in_set_conv_nth)
  have "find (\<lambda>r. session_id r = ?sid) (map ?f (table_rows st)) =
          map_option ?f (find (\<lambda>r. session_id r = ?sid) (table_rows st))"
    by (rule find_map_same) simp
  then show "row_of (snd (updateSessionMetadata st session md now)) session =
           Some (if is_active now r then r\<lparr>metadata := metadata r ++ md, updated_at := now\<rparr> else r)"
    by (simp add: row_of_def update_healthy_after[OF assms(1)] sql_merge_metadata_def r sid)
  show "is_active now r \<Longrightarrow> fst (updateSessionMetadata st session md now) = Inr True"
    using sid mem
    by (auto simp: update_healthy_after[OF assms(1)] sql_merge_metadata_def filter_empty_conv)
qed

lemma row_of_save:
  assumes "healthy st" and "archive_at fsys session d" and "length (getSessionId session) \<le> 255"
  shows "row_of (snd (save st fsys session tMod tExp tDb)) session =
           Some (case row_of st session of
                   None \<Rightarrow> \<lparr>session_id = getSessionId session, session_data = d,
                             metadata = saved_metadata session d tMod, created_at = tDb,
                             updated_at = tDb, expires_at = saved_expiresAt st tExp\<rparr>
                 | Some r \<Rightarrow> r\<lparr>session_data := d, metadata := saved_metadata session d tMod,
                               updated_at := tDb, expires_at := saved_expiresAt st tExp\<rparr>)"
proof (cases "row_of st session")
  case None
  then have "getSessionId session \<notin> set (map session_id (table_rows st))"
    by (auto simp: row_of_None_iff)
  moreover from None have "find (\<lambda>r. session_id r = getSessionId session) (table_rows st) = None"
    by (simp add: row_of_def)
  ultimately show ?thesis
    using None
    by (simp add: row_of_def save_healthy_after[OF assms] upsert_rows_def find_append_None)
next
  case (Some r)
  let ?sid = "getSessionId session"
  let ?f = "\<lambda>r. if session_id r = ?sid
                  then r\<lparr>session_data := d, metadata := saved_metadata session d tMod,
                         updated_at := tDb, expires_at := saved_expiresAt st tExp\<rparr> else r"
  from Some have r: "find (\<lambda>r. session_id r = ?sid) (table_rows st) = Some r"
    by (simp add: row_of_def)
  then have sid: "session_id r = ?sid" and mem: "r \<in> set (table_rows st)"
    by (auto simp: find_Some_iff in_set_conv_nth)
  have "find (\<lambda>r. session_id r = ?sid) (map ?f (table_rows st)) =
          map_option ?f (find (\<lambda>r. session_id r = ?sid) (table_rows st))"
    by (rule find_map_same) simp
  moreover from sid mem have "?sid \<in> set (map session_id (table_rows st))"
    by force
  ultimately show ?thesis
    using Some by (simp add: row_of_def save_healthy_after[OF assms] upsert_rows_def r sid)
qed

lemma ab_store_facts:
  "healthy ab_store"
  "table_rows ab_store = [ab_row]"
  "row_of ab_store ''s'' = Some ab_row"
  "is_active now ab_row"
  by (simp_all add: healthy_def ab_store_def fresh_pool_def table_rows_def row_of_def
      getSessionId_def ab_row_def is_active_def)

text \<open>
  Claim C5.  When the stored metadata of an active session is \<^verbatim>\<open>{a:1,b:2}\<close>,
  \<^verbatim>\<open>updateSessionMetadata\<close> with \<^verbatim>\<open>{b:3,c:4}\<close> returns true and leaves the row with
  the metadata \<^verbatim>\<open>{a:1,b:3,c:4}\<close> and \<^verbatim>\<open>updated_at\<close> set to the time of the statement;
  the other columns keep their values.
\<close>

theorem metadata_merge_example:
  assumes "healthy st"
    and "row_of st session = Some r"
    and "is_active now r"
    and "metadata r = [''a'' \<mapsto> JNum 1, ''b'' \<mapsto> JNum 2]"
    and "updateSessionMetadata st session [''b'' \<mapsto> JNum 3, ''c'' \<mapsto> JNum 4] now = (res, st')"
  shows "res = Inr True \<and>
         row_of st' session =
           Some (r\<lparr>metadata := [''a'' \<mapsto> JNum 1, ''b'' \<mapsto> JNum 3, ''c'' \<mapsto> JNum 4],
                   updated_at := now\<rparr>)"
proof -
  have "[''a'' \<mapsto> JNum 1, ''b'' \<mapsto> JNum 2] ++ [''b'' \<mapsto> JNum 3, ''c'' \<mapsto> JNum 4] =
        [''a'' \<mapsto> JNum 1, ''b'' \<mapsto> JNum 3, ''c'' \<mapsto> JNum 4]"
    by (rule ext) (simp add: map_add_def)
  with row_of_update[OF assms(1,2), where md = "[''b'' \<mapsto> JNum 3, ''c'' \<mapsto> JNum 4]" and now = now] assms(3,4,5)
  show ?thesis by simp
qed

theorem metadata_merge_example_witness:
  "healthy ab_store \<and> row_of ab_store ''s'' = Some ab_row \<and> is_active 7 ab_row \<and>
   metadata ab_row = [''a'' \<mapsto> JNum 1, ''b'' \<mapsto> JNum 2] \<and>
   fst (updateSessionMetadata ab_store ''s'' [''b'' \<mapsto> JNum 3, ''c'' \<mapsto> JNum 4] 7) = Inr True \<and>
   row_of (snd (updateSessionMetadata ab_store ''s'' [''b'' \<mapsto> JNum 3, ''c'' \<mapsto> JNum 4] 7)) ''s'' =
     Some (ab_row\<lparr>metadata := [''a'' \<mapsto> JNum 1, ''b'' \<mapsto> JNum 3, ''c'' \<mapsto> JNum 4],
                   updated_at := 7\<rparr>)"
proof -
  have m: "metadata ab_row = [''a'' \<mapsto> JNum 1, ''b'' \<mapsto> JNum 2]"
    by (simp add: ab_row_def)
  from metadata_merge_example[OF ab_store_facts(1,3,4) m surjective_pairing, of 7]
  show ?thesis by (simp add: ab_store_facts m)
qed

text \<open>
  Claim C3, as stated, fails for \<^verbatim>\<open>save\<close>: its statement sets
  \<^verbatim>\<open>metadata = $3\<close> on conflict.  A key that \<^verbatim>\<open>updateSessionMetadata\<close> added to a saved
  session is gone after the session is saved again.
\<close>

theorem save_replaces_metadata_counterexample:
  "map_option (\<lambda>r. metadata r ''note'')
     (row_of (snd (updateSessionMetadata (saved_store None) ''s'' [''note'' \<mapsto> JStr ''x''] 1)) ''s'')
     = Some (Some (JStr ''x'')) \<and>
   map_option (\<lambda>r. metadata r ''note'')
     (row_of (snd (save (snd (updateSessionMetadata (saved_store None) ''s'' [''note'' \<mapsto> JStr ''x''] 1))
                     (archive_fs ''s'' [1, 2, 3]) ''s'' 2 2 2)) ''s'')
     = Some None"
proof -
  let ?st = "snd (updateSessionMetadata (saved_store None) ''s'' [''note'' \<mapsto> JStr ''x''] 1)"
  have r0: "row_of (saved_store None) ''s'' = Some (hd (table_rows (saved_store None)))"
    by (simp add: row_of_def saved_store_facts getSessionId_def)
  have h: "healthy ?st"
    by (rule update_healthy_after(2)[OF saved_store_facts(1)])
  have len: "length (getSessionId ''s'') \<le> 255"
    by (simp add: getSessionId_def)
  show ?thesis
    by (simp add: row_of_update(1)[OF saved_store_facts(1) r0]
        row_of_save[OF h archive_fs_at len] saved_metadata_def saved_store_facts(4)
        is_active_def saved_expiresAt_def fresh_store_def)
qed

text \<open>
  Claim C3, amended.  \<^verbatim>\<open>updateSessionMetadata\<close> merges the supplied keys into the stored
  map of an active session: the new map is the old one overridden by the supplied one, so
  every key that was stored and is not supplied keeps its value (and the row of a session
  that is not active is left alone).  \<^verbatim>\<open>save\<close> does not merge: it replaces the stored
  map by the three keys it computes.
\<close>

theorem metadata_merged_by_update_replaced_by_save:
  assumes "healthy st" and "row_of st session = Some r"
  shows "(\<exists>r'. row_of (snd (updateSessionMetadata st session md now)) session = Some r' \<and>
            (is_active now r \<longrightarrow>
               metadata r' = metadata r ++ md \<and>
               (\<forall>k. k \<notin> dom md \<longrightarrow> metadata r' k = metadata r k) \<and>
               dom (metadata r) \<subseteq> dom (metadata r')) \<and>
            (\<not> is_active now r \<longrightarrow> r' = r)) \<and>
         (archive_at fsys session d \<and> length (getSessionId session) \<le> 255 \<longrightarrow>
            (\<exists>r'. row_of (snd (save st fsys session tMod tExp tDb)) session = Some r' \<and>
               metadata r' = saved_metadata session d tMod \<and>
               dom (metadata r') = {''originalFilename'', ''size'', ''lastModified''}))"
proof -
  let ?r' = "if is_active now r then r\<lparr>metadata := metadata r ++ md, updated_at := now\<rparr> else r"
  have u: "row_of (snd (updateSessionMetadata st session md now)) session = Some ?r'"
    by (rule row_of_update(1)[OF assms])
  have keep: "\<forall>k. k \<notin> dom md \<longrightarrow> (metadata r ++ md) k = metadata r k"
    by (simp add: map_add_dom_app_simps)
  have grow: "dom (metadata r) \<subseteq> dom (metadata r ++ md)"
    by simp
  have 1: "is_active now r \<longrightarrow>
             metadata ?r' = metadata r ++ md \<and>
             (\<forall>k. k \<notin> dom md \<longrightarrow> metadata ?r' k = metadata r k) \<and>
             dom (metadata r) \<subseteq> dom (metadata ?r')"
    using keep grow by simp
  have 2: "\<not> is_active now r \<longrightarrow> ?r' = r"
    by simp
  have d: "dom (saved_metadata session d tMod) = {''originalFilename'', ''size'', ''lastModified''}"
    unfolding saved_metadata_def by (simp add: insert_commute)
  have 3: "\<exists>r'. row_of (snd (save st fsys session tMod tExp tDb)) session = Some r' \<and>
               metadata r' = saved_metadata session d tMod \<and>
               dom (metadata r') = {''originalFilename'', ''size'', ''lastModified''}"
    if "archive_at fsys session d" and "length (getSessionId session) \<le> 255"
    using row_of_save[OF assms(1) that, of tMod tExp tDb] assms(2) d by simp
  have A: "\<exists>r'. row_of (snd (updateSessionMetadata st session md now)) session = Some r' \<and>
            (is_active now r \<longrightarrow>
               metadata r' = metadata r ++ md \<and>
               (\<forall>k. k \<notin> dom md \<longrightarrow> metadata r' k = metadata r k) \<and>
               dom (metadata r) \<subseteq> dom (metadata r')) \<and>
            (\<not> is_active now r \<longrightarrow> r' = r)"
  proof (intro exI conjI)
    show "row_of (snd (updateSessionMetadata st session md now)) session = Some ?r'"
      by (rule u)
    show "is_active now r \<longrightarrow>
             metadata ?r' = metadata r ++ md \<and>
             (\<forall>k. k \<notin> dom md \<longrightarrow> metadata ?r' k = metadata r k) \<and>
             dom (metadata r) \<subseteq> dom (metadata ?r')"
      by (rule 1)
    show "\<not> is_active now r \<longrightarrow> ?r' = r"
      by (rule 2)
  qed
  have B: "archive_at fsys session d \<and> length (getSessionId session) \<le> 255 \<longrightarrow>
            (\<exists>r'. row_of (snd (save st fsys session tMod tExp tDb)) session = Some r' \<and>
               metadata r' = saved_metadata session d tMod \<and>
               dom (metadata r') = {''originalFilename'', ''size'', ''lastModified''})"
  proof (rule impI, elim conjE)
    assume "archive_at fsys session d" and "length (getSessionId session) \<le> 255"
    then show "\<exists>r'. row_of (snd (save st fsys session tMod tExp tDb)) session = Some r' \<and>
               metadata r' = saved_metadata session d tMod \<and>
               dom (metadata r') = {''originalFilename'', ''size'', ''lastModified''}"
      by (rule 3)
  qed
  from A B show ?thesis by (rule conjI)
qed

theorem metadata_merged_by_update_replaced_by_save_witness:
  "healthy ab_store \<and> row_of ab_store ''s'' = Some ab_row \<and> is_active 7 ab_row \<and>
   archive_at (archive_fs ''s'' [4, 5]) ''s'' [4, 5] \<and>
   map_option metadata (row_of (snd (updateSessionMetadata ab_store ''s'' [''c'' \<mapsto> JNum 4] 7)) ''s'')
     = Some [''a'' \<mapsto> JNum 1, ''b'' \<mapsto> JNum 2, ''c'' \<mapsto> JNum 4] \<and>
   map_option metadata (row_of (snd (save ab_store (archive_fs ''s'' [4, 5]) ''s'' 8 8 9)) ''s'')
     = Some (saved_metadata ''s'' [4, 5] 8)"
proof -
  have len: "length (getSessionId ''s'') \<le> 255"
    by (simp add: getSessionId_def)
  have m: "metadata ab_row ++ [''c'' \<mapsto> JNum 4] = [''a'' \<mapsto> JNum 1, ''b'' \<mapsto> JNum 2, ''c'' \<mapsto> JNum 4]"
    by (simp add: ab_row_def)
  note t = metadata_merged_by_update_replaced_by_save[OF ab_store_facts(1,3),
      of "[''c'' \<mapsto> JNum 4]" 7 "archive_fs ''s'' [4, 5]" "[4, 5]" 8 8 9]
  from t[THEN conjunct1] obtain r1 where
    r1: "row_of (snd (updateSessionMetadata ab_store ''s'' [''c'' \<mapsto> JNum 4] 7)) ''s'' = Some r1"
      "is_active 7 ab_row \<longrightarrow>
         metadata r1 = metadata ab_row ++ [''c'' \<mapsto> JNum 4] \<and>
         (\<forall>k. k \<notin> dom [''c'' \<mapsto> JNum 4] \<longrightarrow> metadata r1 k = metadata ab_row k) \<and>
         dom (metadata ab_row) \<subseteq> dom (metadata r1)"
    by (elim exE conjE)
  from mp[OF t[THEN conjunct2] conjI[OF archive_fs_at len]] obtain r2 where
    r2: "row_of (snd (save ab_store (archive_fs ''s'' [4, 5]) ''s'' 8 8 9)) ''s'' = Some r2"
      "metadata r2 = saved_metadata ''s'' [4, 5] 8"
    by (elim exE conjE)
  from mp[OF r1(2) ab_store_facts(4)]
  have r1m: "metadata r1 = [''a'' \<mapsto> JNum 1, ''b'' \<mapsto> JNum 2, ''c'' \<mapsto> JNum 4]"
    by (simp only: m)
  show ?thesis
    by (simp add: ab_store_facts archive_fs_at r1(1) r2 r1m)
qed

subsection \<open>The log of queries\<close>

lemma issued_since_init:
  assumes "healthy st"
  shows "issued_since st (init st) = schema_queries st"
    and "issued_since st (after_query (init st) s rs) = schema_queries st @ [s]"
    and "issued_since st (after_query (after_query (init st) s rs) s' rs') =
           schema_queries st @ [s, s']"
  by (simp_all add: issued_since_def after_query_simps ensureInitialized_healthy(7)[OF assms]
      schema_queries_def)

lemma select_active_row_of:
  assumes "row_of st session = Some r" and "is_active now r"
  shows "sql_select_active (getSessionId session) now (table_rows st) \<noteq> []"
proof -
  from assms(1) have "session_id r = getSessionId session" and "r \<in> set (table_rows st)"
    by (auto simp: row_of_def find_Some_iff in_set_conv_nth)
  with assms(2) show ?thesis
    by (auto simp: sql_select_active_def filter_empty_conv)
qed

text \<open>
  Claim C9.  When the write of the blob to the destination fails, \<^verbatim>\<open>extract\<close> raises the
  wrapped error of the write instead of returning metadata; the update of the access time
  is never issued (the select is the only statement of the call, after the schema query of
  a first call), and the rows of the table are unchanged.
\<close>

theorem extract_write_failure_leaves_row:
  assumes "healthy st"
    and "row_of st session = Some r"
    and "is_active tSel r"
    and "write_fault fsys path = Some e"
    and "extract_session st fsys session path tSel tUpd = (res, st', fsys')"
  shows "res = Inl (Error (''Failed to extract session: '' @ message e)) \<and>
         table_rows st' = table_rows st \<and>
         row_of st' session = Some r \<and>
         issued_since st st' = schema_queries st @ [SELECT_ACTIVE_BY_ID] \<and>
         fsys' = fsys"
proof -
  from select_active_row_of[OF assms(2,3)] obtain r' rs' where
    "sql_select_active (getSessionId session) tSel (table_rows st) = r' # rs'"
    by (cases "sql_select_active (getSessionId session) tSel (table_rows st)") auto
  with assms(4,5) have res: "res = Inl (extract_catch e)"
    and st': "st' = after_query (init st) SELECT_ACTIVE_BY_ID (table_rows st)"
    and fs': "fsys' = fsys"
    by (simp_all add: extract_healthy[OF assms(1)])
  from assms(2) have "row_of st' session = Some r"
    unfolding st' by (simp add: row_of_after_query) (simp add: row_of_def)
  then show ?thesis
    unfolding res fs'
    by (simp add: st' after_query_simps issued_since_init[OF assms(1)] extract_catch_def)
qed

text \<open>A file system on which the write to \<open>out.zip\<close> fails.\<close>

theorem extract_write_failure_leaves_row_witness:
  "healthy ab_store \<and> row_of ab_store ''s'' = Some ab_row \<and> is_active 5 ab_row \<and>
   fst (extract_session ab_store
          ((archive_fs ''s'' [])\<lparr>write_fault := [''out.zip'' \<mapsto> JsError ''EACCES: permission denied'' (Some ''EACCES'')]\<rparr>)
          ''s'' ''out.zip'' 5 6)
     = Inl (Error ''Failed to extract session: EACCES: permission denied'') \<and>
   table_rows (fst (snd (extract_session ab_store
          ((archive_fs ''s'' [])\<lparr>write_fault := [''out.zip'' \<mapsto> JsError ''EACCES: permission denied'' (Some ''EACCES'')]\<rparr>)
          ''s'' ''out.zip'' 5 6)))
     = [ab_row]"
proof -
  let ?fs = "(archive_fs ''s'' [])\<lparr>write_fault := [''out.zip'' \<mapsto> JsError ''EACCES: permission denied'' (Some ''EACCES'')]\<rparr>"
  have w: "write_fault ?fs ''out.zip'' = Some (JsError ''EACCES: permission denied'' (Some ''EACCES''))"
    by simp
  have p: "extract_session ab_store ?fs ''s'' ''out.zip'' 5 6 =
      (fst (extract_session ab_store ?fs ''s'' ''out.zip'' 5 6),
       fst (snd (extract_session ab_store ?fs ''s'' ''out.zip'' 5 6)),
       snd (snd (extract_session ab_store ?fs ''s'' ''out.zip'' 5 6)))"
    by simp
  from extract_write_failure_leaves_row[OF ab_store_facts(1,3,4) w p]
  show ?thesis by (simp add: ab_store_facts)
qed

text \<open>
  Claim C10.  When the options hold a pool, the constructor takes it: the store it builds
  has that pool and is the same whatever the connection parameters are and whatever
  \<^verbatim>\<open>new Pool\<close> would build from them, so no pool is built from the parameters.
\<close>

theorem constructor_uses_supplied_pool:
  assumes "opt_pool opts = Some p" and "opt_connectionConfig opts = Some c"
  shows "\<exists>st. constructor new_Pool opts = Inr st \<and> pool st = p \<and>
              constructor new_Pool' (opts\<lparr>opt_connectionConfig := cc\<rparr>) = Inr st"
  using assms by (simp add: constructor_def)

theorem constructor_uses_supplied_pool_witness:
  "\<exists>st. constructor (\<lambda>c. fresh_pool\<lparr>ended := True\<rparr>)
           \<lparr>opt_pool = Some fresh_pool, opt_connectionConfig = Some ''postgres://db'',
            opt_tableName = None, opt_sessionTTL = None\<rparr> = Inr st \<and>
        pool st = fresh_pool \<and>
        constructor (\<lambda>c. fresh_pool)
           \<lparr>opt_pool = Some fresh_pool, opt_connectionConfig = None,
            opt_tableName = None, opt_sessionTTL = None\<rparr> = Inr st"
  using constructor_uses_supplied_pool[of
      "\<lparr>opt_pool = Some fresh_pool, opt_connectionConfig = Some ''postgres://db'',
        opt_tableName = None, opt_sessionTTL = None\<rparr>"
      fresh_pool "''postgres://db''" "\<lambda>c. fresh_pool\<lparr>ended := True\<rparr>" "\<lambda>c. fresh_pool" None]
  by simp

subsection \<open>The upsert and the primary key\<close>

lemma upsert_rows_ids:
  "map session_id (upsert_rows sid d md ex now rs) =
     (if sid \<in> set (map session_id rs) then map session_id rs else map session_id rs @ [sid])"
  by (simp add: upsert_rows_def comp_def)

lemma primary_key_upsert:
  "primary_key rs \<Longrightarrow> primary_key (upsert_rows sid d md ex now rs)"
  unfolding primary_key_def upsert_rows_ids by simp

lemma namespaced_upsert:
  "namespaced rs \<Longrightarrow> namespaced (upsert_rows (getSessionId session) d md ex now rs)"
  by (auto simp: namespaced_def upsert_rows_def list_all_iff getSessionId_def)

lemma distinct_find_filter:
  "distinct (map f xs) \<Longrightarrow> find (\<lambda>x. f x = k) xs = Some r \<Longrightarrow> filter (\<lambda>x. f x = k) xs = [r]"
proof (induction xs)
  case Nil
  then show ?case by simp
next
  case (Cons x xs)
  show ?case
  proof (cases "f x = k")
    case True
    from True Cons.prems(2) have "x = r"
      by simp
    moreover from True Cons.prems(1) have "\<forall>y\<in>set xs. f y \<noteq> k"
      by (fastforce simp: image_iff)
    ultimately have "x = r" and "\<forall>y\<in>set xs. f y \<noteq> k"
      by simp_all
    then show ?thesis
      using True by (simp add: filter_empty_conv[THEN iffD2])
  next
    case False
    with Cons show ?thesis by simp
  qed
qed

subsection \<open>The listing\<close>

lemma strip_namespace_getSessionId: "strip_namespace (getSessionId n) = n"
  by (simp add: strip_namespace_def getSessionId_def)

lemma getSessionId_inject: "getSessionId a = getSessionId b \<longleftrightarrow> a = b"
  by (simp add: getSessionId_def)

lemma listSessions_healthy_after:
  assumes "healthy st"
  shows "fst (listSessions st now) = Inr (map to_info (sql_select_all_active now (table_rows st)))"
  by (simp add: listSessions_healthy[OF assms])

lemma select_all_active_two:
  assumes "updated_at ra < updated_at rb"
  shows "sql_select_all_active now [ra, rb] = filter (is_active now) [rb, ra]"
  using assms by (simp add: sql_select_all_active_def)

subsection \<open>Expiration\<close>

lemma upsert_rows_expire:
  assumes "x \<in> set (upsert_rows sid d md ex now rs)" and "session_id x = sid"
  shows "expires_at x = ex"
proof (cases "sid \<in> set (map session_id rs)")
  case True
  let ?f = "\<lambda>r. if session_id r = sid
                  then r\<lparr>session_data := d, metadata := md, updated_at := now, expires_at := ex\<rparr>
                  else r"
  from True have "upsert_rows sid d md ex now rs = map ?f rs"
    by (simp add: upsert_rows_def)
  with assms(1) have "x \<in> ?f ` set rs"
    by (simp only: set_map)
  then obtain r where x: "x = ?f r"
    by (rule imageE)
  show ?thesis
  proof (cases "session_id r = sid")
    case True
    with x show ?thesis by simp
  next
    case False
    with x assms(2) show ?thesis by simp
  qed
next
  case False
  let ?new = "\<lparr>session_id = sid, session_data = d, metadata = md,
                created_at = now, updated_at = now, expires_at = ex\<rparr>"
  from False have "upsert_rows sid d md ex now rs = rs @ [?new]"
    by (simp add: upsert_rows_def)
  with assms(1) have "x \<in> set rs \<or> x = ?new"
    by (simp only: set_append set_simps Un_iff insert_iff empty_iff simp_thms)
  then show ?thesis
  proof
    assume "x \<in> set rs"
    then have "session_id x \<in> set (map session_id rs)"
      by (simp only: set_map) (rule imageI)
    with False assms(2) show ?thesis by simp
  next
    assume "x = ?new"
    then show ?thesis by simp
  qed
qed

lemma find_filter_Cons: "find P xs = Some r \<Longrightarrow> \<exists>ys. filter P xs = r # ys"
  by (induction xs) (auto split: if_splits)

lemma strip_namespace_iff:
  assumes "take 9 s = ''whatsapp-''"
  shows "strip_namespace s = n \<longleftrightarrow> s = getSessionId n"
proof
  assume "strip_namespace s = n"
  with assms have "drop 9 s = n"
    by (simp add: strip_namespace_def)
  with assms have "take 9 s @ drop 9 s = ''whatsapp-'' @ n"
    by simp
  then show "s = getSessionId n"
    by (simp add: getSessionId_def)
next
  assume "s = getSessionId n"
  then show "strip_namespace s = n"
    by (simp add: strip_namespace_getSessionId)
qed

text \<open>What the four reading operations return when every row of the session shares one
  expiration.\<close>

lemma select_active_uniform:
  assumes "row_of st session = Some r"
    and "\<And>x. x \<in> set (table_rows st) \<Longrightarrow> session_id x = getSessionId session \<Longrightarrow>
            expires_at x = expires_at r"
  shows "\<exists>ys. sql_select_active (getSessionId session) now (table_rows st) =
              (if is_active now r then r # ys else [])"
proof -
  let ?sid = "getSessionId session"
  have eq: "filter (\<lambda>x. session_id x = ?sid \<and> is_active now x) (table_rows st) =
            filter (\<lambda>x. session_id x = ?sid \<and> is_active now r) (table_rows st)"
    by (rule filter_cong[OF refl]) (auto simp: is_active_def assms(2))
  from assms(1) obtain ys where ys: "filter (\<lambda>x. session_id x = ?sid) (table_rows st) = r # ys"
    unfolding row_of_def by (blast dest: find_filter_Cons)
  show ?thesis
  proof (cases "is_active now r")
    case True
    with eq ys show ?thesis by (simp add: sql_select_active_def)
  next
    case False
    with eq show ?thesis by (simp add: sql_select_active_def)
  qed
qed

lemma listed_iff:
  assumes "healthy st" and "namespaced (table_rows st)"
  shows "\<exists>l. fst (listSessions st now) = Inr l \<and>
           (session \<in> set (map info_session l) \<longleftrightarrow>
              (\<exists>x\<in>set (table_rows st). session_id x = getSessionId session \<and> is_active now x))"
proof -
  let ?l = "map to_info (sql_select_all_active now (table_rows st))"
  have ns: "take 9 (session_id x) = ''whatsapp-''" if "x \<in> set (table_rows st)" for x
    using assms(2) that by (simp add: namespaced_def list_all_iff)
  have "session \<in> set (map info_session ?l) \<longleftrightarrow>
          (\<exists>x\<in>set (table_rows st). is_active now x \<and> strip_namespace (session_id x) = session)"
    by (auto simp: sql_select_all_active_def to_info_def image_iff)
  also have "\<dots> \<longleftrightarrow> (\<exists>x\<in>set (table_rows st). session_id x = getSessionId session \<and> is_active now x)"
    using strip_namespace_iff[OF ns] by blast
  finally show ?thesis
    using listSessions_healthy_after[OF assms(1), of now] by blast
qed

subsection \<open>Statements per operation\<close>

lemma save_issued:
  assumes "healthy st"
  shows "issued_since st (snd (save st fsys session tMod tExp tDb)) =
           schema_queries st @
           (if isl (fs_access fsys (session @ ''.zip'')) \<or> isl (fs_readFile fsys (session @ ''.zip''))
            then [] else [UPSERT])"
proof -
  note h = ensureInitialized_healthy[OF assms]
  have p: "\<not> ended (pool (init st))" "faults (pool (init st)) = []"
    using h(3) by (auto simp: healthy_def)
  have i: "issued_since st (init st) = schema_queries st"
    by (rule issued_since_init(1)[OF assms])
  have q: "issued_since st ((init st)\<lparr>pool := p'\<rparr>) = schema_queries st @ [UPSERT]"
    if "pool_query (pool (init st)) UPSERT run = (x, p')"
    for run :: "tables \<Rightarrow> js_error + (nat \<times> tables)" and x p'
    using that
    by (auto simp: pool_query_ok[OF p] issued_since_def h(7) schema_queries_def
        split: sum.splits prod.splits)
  show ?thesis
  proof (cases "isl (fs_access fsys (session @ ''.zip'')) \<or> isl (fs_readFile fsys (session @ ''.zip''))")
    case True
    then show ?thesis
      using i by (auto simp: save_def h(1) Let_def isl_def split: sum.splits)
  next
    case False
    then obtain u d where "fs_access fsys (session @ ''.zip'') = Inr u"
      and "fs_readFile fsys (session @ ''.zip'') = Inr d"
      by (cases "fs_access fsys (session @ ''.zip'')"; cases "fs_readFile fsys (session @ ''.zip'')") auto
    moreover obtain x p' where
      pq: "pool_query (pool (init st)) UPSERT
             (on_table (tableName (init st))
                (sql_upsert (getSessionId session) d
                   [''originalFilename'' \<mapsto> JStr (session @ ''.zip''),
                    ''size'' \<mapsto> JNum (int (length d)),
                    ''lastModified'' \<mapsto> JNum tMod]
                   (case sessionTTL (init st) of None \<Rightarrow> None
                    | Some ttl \<Rightarrow> if ttl \<noteq> 0 then Some (tExp + ttl * 1000) else None)
                   tDb)) = (x, p')"
      by (rule prod.exhaust)
    ultimately show ?thesis
      using q[OF pq] False by (cases x) (simp_all add: save_def h(1) Let_def)
  qed
qed

lemma extract_issued:
  assumes "healthy st"
  shows "issued_since st (fst (snd (extract_session st fsys session path tSel tUpd))) =
           schema_queries st @
           (if sql_select_active (getSessionId session) tSel (table_rows st) = [] \<or>
               write_fault fsys path \<noteq> None
            then [SELECT_ACTIVE_BY_ID] else [SELECT_ACTIVE_BY_ID, TOUCH])"
  by (cases "sql_select_active (getSessionId session) tSel (table_rows st)";
      cases "write_fault fsys path")
    (simp_all add: extract_healthy[OF assms] issued_since_init[OF assms])

text \<open>
  Claim C4, as stated, fails for \<^verbatim>\<open>extract\<close>: on an initialized store it issues two
  statements, the select and then the update of the access time, each with its own
  \<^verbatim>\<open>NOW()\<close>.  A session that is active at the select (time 59999) and expired at the
  update (time 60000) is extracted, and its expired row is written.
\<close>

theorem extract_two_statements_counterexample:
  "initialized ab_store \<and>
   issued_since ab_store
     (fst (snd (extract_session ab_store (archive_fs ''s'' []) ''s'' ''out.zip'' 5 6))) =
     [SELECT_ACTIVE_BY_ID, TOUCH] \<and>
   \<not> isl (fst (extract_session (saved_store (Some 60)) (archive_fs ''s'' []) ''s'' ''out.zip''
                 59999 60000)) \<and>
   map (\<lambda>r. (updated_at r, expires_at r))
     (table_rows (fst (snd (extract_session (saved_store (Some 60)) (archive_fs ''s'' [])
                              ''s'' ''out.zip'' 59999 60000)))) =
     [(60000, Some 60000)]"
proof -
  have 1: "initialized ab_store"
    by (simp add: ab_store_def)
  have 2: "issued_since ab_store
     (fst (snd (extract_session ab_store (archive_fs ''s'' []) ''s'' ''out.zip'' 5 6))) =
     [SELECT_ACTIVE_BY_ID, TOUCH]"
    by (simp add: extract_issued[OF ab_store_facts(1)] ab_store_facts(2) sql_select_active_def
        schema_queries_def 1 archive_fs_def)
      (simp add: ab_row_def getSessionId_def is_active_def)
  let ?r = "\<lparr>session_id = ''whatsapp-s'', session_data = [1, 2, 3],
              metadata = saved_metadata ''s'' [1, 2, 3] 0, created_at = 0, updated_at = 0,
              expires_at = Some 60000\<rparr>"
  have rows: "table_rows (saved_store (Some 60)) = [?r]"
    by (simp add: saved_store_facts(4) saved_expiresAt_def fresh_store_def)
  have sel: "sql_select_active (getSessionId ''s'') 59999 (table_rows (saved_store (Some 60))) = [?r]"
    by (simp add: rows sql_select_active_def getSessionId_def is_active_def)
  have touch: "snd (sql_touch (getSessionId ''s'') 60000 (table_rows (saved_store (Some 60)))) =
                 [?r\<lparr>updated_at := 60000\<rparr>]"
    by (simp add: rows sql_touch_def getSessionId_def)
  have w: "write_fault (archive_fs ''s'' []) ''out.zip'' = None"
    by (simp add: archive_fs_def)
  have 3: "\<not> isl (fst (extract_session (saved_store (Some 60)) (archive_fs ''s'' []) ''s'' ''out.zip''
                 59999 60000))"
    by (simp add: extract_healthy[OF saved_store_facts(1)] sel w)
  have 4: "map (\<lambda>r. (updated_at r, expires_at r))
     (table_rows (fst (snd (extract_session (saved_store (Some 60)) (archive_fs ''s'' [])
                              ''s'' ''out.zip'' 59999 60000)))) =
     [(60000, Some 60000)]"
    by (simp add: extract_healthy[OF saved_store_facts(1)] sel w touch after_query_simps)
  from 1 2 3 4 show ?thesis by (intro conjI)
qed

text \<open>
  Claim C4, amended.  On a healthy store every operation issues, after the one schema
  query of a store that is not initialized yet, exactly one statement, with three
  exceptions: \<^verbatim>\<open>extract\<close> issues its select and then, when an active row was found and
  the destination was written, a separate update; \<^verbatim>\<open>save\<close> issues no statement when
  its archive cannot be read; \<^verbatim>\<open>close\<close> issues none.
\<close>

theorem statements_per_operation:
  assumes "healthy st"
  shows "issued_since st (snd (sessionExists st session now)) =
           schema_queries st @ [SELECT_ACTIVE_BY_ID] \<and>
         issued_since st (snd (save st fsys session tMod tExp tDb)) =
           schema_queries st @
           (if isl (fs_access fsys (session @ ''.zip'')) \<or> isl (fs_readFile fsys (session @ ''.zip''))
            then [] else [UPSERT]) \<and>
         issued_since st (fst (snd (extract_session st fsys session path tSel tUpd))) =
           schema_queries st @
           (if sql_select_active (getSessionId session) tSel (table_rows st) = [] \<or>
               write_fault fsys path \<noteq> None
            then [SELECT_ACTIVE_BY_ID] else [SELECT_ACTIVE_BY_ID, TOUCH]) \<and>
         issued_since st (snd (delete st session)) = schema_queries st @ [DELETE_BY_ID] \<and>
         issued_since st (snd (listSessions st now)) = schema_queries st @ [SELECT_ALL_ACTIVE] \<and>
         issued_since st (snd (getSessionMetadata st session now)) =
           schema_queries st @ [SELECT_ACTIVE_BY_ID] \<and>
         issued_since st (snd (updateSessionMetadata st session md now)) =
           schema_queries st @ [MERGE_METADATA] \<and>
         issued_since st (snd (cleanupExpiredSessions st now)) =
           schema_queries st @ [DELETE_EXPIRED] \<and>
         issued_since st (snd (getStats st now)) = schema_queries st @ [SELECT_STATS] \<and>
         issued_since st (close st) = []"
proof (intro conjI)
  note i = issued_since_init(2)[OF assms]
  show "issued_since st (snd (sessionExists st session now)) =
           schema_queries st @ [SELECT_ACTIVE_BY_ID]"
    by (simp add: sessionExists_healthy[OF assms] i)
  show "issued_since st (snd (save st fsys session tMod tExp tDb)) =
           schema_queries st @
           (if isl (fs_access fsys (session @ ''.zip'')) \<or> isl (fs_readFile fsys (session @ ''.zip''))
            then [] else [UPSERT])"
    by (rule save_issued[OF assms])
  show "issued_since st (fst (snd (extract_session st fsys session path tSel tUpd))) =
           schema_queries st @
           (if sql_select_active (getSessionId session) tSel (table_rows st) = [] \<or>
               write_fault fsys path \<noteq> None
            then [SELECT_ACTIVE_BY_ID] else [SELECT_ACTIVE_BY_ID, TOUCH])"
    by (rule extract_issued[OF assms])
  show "issued_since st (snd (delete st session)) = schema_queries st @ [DELETE_BY_ID]"
    by (simp add: delete_healthy[OF assms] i)
  show "issued_since st (snd (listSessions st now)) = schema_queries st @ [SELECT_ALL_ACTIVE]"
    by (simp add: listSessions_healthy[OF assms] i)
  show "issued_since st (snd (getSessionMetadata st session now)) =
           schema_queries st @ [SELECT_ACTIVE_BY_ID]"
    by (simp add: getSessionMetadata_healthy[OF assms] i)
  show "issued_since st (snd (updateSessionMetadata st session md now)) =
           schema_queries st @ [MERGE_METADATA]"
    by (simp add: updateSessionMetadata_healthy[OF assms] i)
  show "issued_since st (snd (cleanupExpiredSessions st now)) =
           schema_queries st @ [DELETE_EXPIRED]"
    by (simp add: cleanupExpiredSessions_healthy[OF assms] i)
  show "issued_since st (snd (getStats st now)) = schema_queries st @ [SELECT_STATS]"
    by (simp add: getStats_healthy[OF assms] i)
  show "issued_since st (close st) = []"
    by (simp add: close_def issued_since_def)
qed

theorem statements_per_operation_witness:
  "healthy (fresh_store None) \<and>
   issued_since (fresh_store None) (snd (sessionExists (fresh_store None) ''s'' 0)) =
     [CREATE_SCHEMA, SELECT_ACTIVE_BY_ID] \<and>
   issued_since (fresh_store None)
     (snd (save (fresh_store None) (archive_fs ''s'' [1, 2, 3]) ''s'' 0 0 0)) =
     [CREATE_SCHEMA, UPSERT] \<and>
   healthy ab_store \<and>
   issued_since ab_store (snd (delete ab_store ''s'')) = [DELETE_BY_ID] \<and>
   issued_since ab_store (snd (save ab_store (archive_fs ''t'' []) ''s'' 0 0 0)) = [] \<and>
   issued_since ab_store
     (fst (snd (extract_session ab_store (archive_fs ''s'' []) ''t'' ''out.zip'' 5 6))) =
     [SELECT_ACTIVE_BY_ID]"
proof -
  have a: "\<not> isl (fs_access (archive_fs ''s'' [1, 2, 3]) (''s'' @ ''.zip''))"
    "\<not> isl (fs_readFile (archive_fs ''s'' [1, 2, 3]) (''s'' @ ''.zip''))"
    "isl (fs_access (archive_fs ''t'' []) (''s'' @ ''.zip''))"
    by (simp_all add: fs_access_def fs_readFile_def archive_fs_def)
  have sel: "sql_select_active (getSessionId ''t'') 5 (table_rows ab_store) = []"
    by (simp add: ab_store_facts(2) sql_select_active_def getSessionId_def ab_row_def)
  have sq: "schema_queries (fresh_store None) = [CREATE_SCHEMA]" "schema_queries ab_store = []"
    by (simp_all add: schema_queries_def fresh_store_def ab_store_def)
  note t1 = statements_per_operation[OF fresh_store_healthy(1), of None "''s''" 0
      "archive_fs ''s'' [1, 2, 3]" 0 0 0]
  note t2 = statements_per_operation[OF ab_store_facts(1), of "''s''" 0 "archive_fs ''t'' []" 0 0 0]
  note t3 = statements_per_operation[OF ab_store_facts(1), of "''t''" 0 "archive_fs ''s'' []" 0 0 0
      "''out.zip''" 5 6]
  from t1[THEN conjunct1]
  have 1: "issued_since (fresh_store None) (snd (sessionExists (fresh_store None) ''s'' 0)) =
     [CREATE_SCHEMA, SELECT_ACTIVE_BY_ID]"
    by (simp add: sq)
  from t1[THEN conjunct2, THEN conjunct1] a(1,2)
  have 2: "issued_since (fresh_store None)
     (snd (save (fresh_store None) (archive_fs ''s'' [1, 2, 3]) ''s'' 0 0 0)) =
     [CREATE_SCHEMA, UPSERT]"
    by (simp add: sq)
  from t2[THEN conjunct2, THEN conjunct2, THEN conjunct2, THEN conjunct1]
  have 3: "issued_since ab_store (snd (delete ab_store ''s'')) = [DELETE_BY_ID]"
    by (simp add: sq)
  from t2[THEN conjunct2, THEN conjunct1] a(3)
  have 4: "issued_since ab_store (snd (save ab_store (archive_fs ''t'' []) ''s'' 0 0 0)) = []"
    by (simp add: sq)
  from t3[THEN conjunct2, THEN conjunct2, THEN conjunct1] sel
  have 5: "issued_since ab_store
     (fst (snd (extract_session ab_store (archive_fs ''s'' []) ''t'' ''out.zip'' 5 6))) =
     [SELECT_ACTIVE_BY_ID]"
    by (simp add: sq)
  from fresh_store_healthy(1) 1 2 ab_store_facts(1) 3 4 5 show ?thesis
    by (intro conjI)
qed

subsection \<open>Failures\<close>

lemma pool_query_fault:
  "\<not> ended p \<Longrightarrow> faults p = Some e # rest \<Longrightarrow>
   pool_query p s run = (Inl e, p\<lparr>faults := rest, issued := issued p @ [s]\<rparr>)"
  by (simp add: pool_query_def)

lemma ensureInitialized_done: "initialized st \<Longrightarrow> ensureInitialized st = (Inr (), st)"
  by (simp add: ensureInitialized_def)

lemma save_archive_missing:
  assumes "healthy st"
    and "files fsys (session @ ''.zip'') = None"
    and "access_fault fsys (session @ ''.zip'') = None"
  shows "fst (save st fsys session tMod tExp tDb) =
           Inl (Error (''Session file not found: '' @ session @ ''.zip''))"
  using assms(2,3)
  by (simp add: save_def ensureInitialized_healthy(1)[OF assms(1)] fs_access_def save_catch_def
      enoent_def)

lemma extract_not_found:
  assumes "healthy st"
    and "sql_select_active (getSessionId session) tSel (table_rows st) = []"
  shows "fst (extract_session st fsys session path tSel tUpd) =
           Inl (Error (''Failed to extract session: Session '' @ session @ '' not found or expired''))"
  using assms(2) by (simp add: extract_healthy[OF assms(1)] extract_catch_def Error_def)

lemma query_failure_wrapped:
  assumes "initialized st" and "\<not> ended (pool st)" and "faults (pool st) = Some e # rest"
  shows "fst (sessionExists st session now) =
           Inl (Error (''Failed to check session existence: '' @ message e))"
    and "fst (extract_session st fsys session path tSel tUpd) =
           Inl (Error (''Failed to extract session: '' @ message e))"
    and "fst (delete st session) = Inl (Error (''Failed to delete session: '' @ message e))"
    and "fst (listSessions st now) = Inl (Error (''Failed to list sessions: '' @ message e))"
    and "fst (getSessionMetadata st session now) =
           Inl (Error (''Failed to get session metadata: '' @ message e))"
    and "fst (updateSessionMetadata st session md now) =
           Inl (Error (''Failed to update session metadata: '' @ message e))"
    and "fst (cleanupExpiredSessions st now) =
           Inl (Error (''Failed to cleanup expired sessions: '' @ message e))"
    and "fst (getStats st now) = Inl (Error (''Failed to get stats: '' @ message e))"
    and "archive_at fsys session d \<Longrightarrow> code e \<noteq> Some ''ENOENT'' \<Longrightarrow>
         fst (save st fsys session tMod tExp tDb) =
           Inl (Error (''Failed to save session: '' @ message e))"
  using assms
  by (simp_all add: sessionExists_def extract_session_def delete_def listSessions_def
      getSessionMetadata_def updateSessionMetadata_def cleanupExpiredSessions_def getStats_def
      save_def ensureInitialized_done pool_query_fault extract_catch_def save_catch_def
      archive_at_def fs_access_def fs_readFile_def)

text \<open>
  Claim C7, as stated, fails for \<^verbatim>\<open>extract\<close>: the error of a session not found is
  thrown inside the \<^verbatim>\<open>try\<close> block, so the \<^verbatim>\<open>catch\<close> wraps it like a database
  error.  What the caller gets has the prefix of the operation, and is the very error that
  a failed query with the same message gives.
\<close>

theorem extract_not_found_wrapped_counterexample:
  "fst (extract_session ab_store (archive_fs ''s'' []) ''t'' ''out.zip'' 5 6) =
     Inl (Error ''Failed to extract session: Session t not found or expired'') \<and>
   fst (extract_session
          (ab_store\<lparr>pool := (pool ab_store)\<lparr>faults :=
             [Some (JsError ''Session t not found or expired'' (Some ''08006''))]\<rparr>\<rparr>)
          (archive_fs ''s'' []) ''t'' ''out.zip'' 5 6) =
     Inl (Error ''Failed to extract session: Session t not found or expired'')"
proof -
  have sel: "sql_select_active (getSessionId ''t'') 5 (table_rows ab_store) = []"
    by (simp add: ab_store_facts(2) sql_select_active_def getSessionId_def ab_row_def)
  have 1: "fst (extract_session ab_store (archive_fs ''s'' []) ''t'' ''out.zip'' 5 6) =
     Inl (Error ''Failed to extract session: Session t not found or expired'')"
    using extract_not_found[OF ab_store_facts(1) sel, of "archive_fs ''s'' []" "''out.zip''" 6]
    by simp
  let ?st = "ab_store\<lparr>pool := (pool ab_store)\<lparr>faults :=
             [Some (JsError ''Session t not found or expired'' (Some ''08006''))]\<rparr>\<rparr>"
  have f: "initialized ?st" "\<not> ended (pool ?st)"
    "faults (pool ?st) = Some (JsError ''Session t not found or expired'' (Some ''08006'')) # []"
    by (simp_all add: ab_store_def fresh_pool_def)
  have 2: "fst (extract_session ?st (archive_fs ''s'' []) ''t'' ''out.zip'' 5 6) =
     Inl (Error ''Failed to extract session: Session t not found or expired'')"
    using query_failure_wrapped(2)[OF f, of "archive_fs ''s'' []" "''t''" "''out.zip''" 5 6]
    by simp
  from 1 2 show ?thesis by (rule conjI)
qed

text \<open>
  Claim C7, amended.  \<^verbatim>\<open>save\<close> with a missing archive raises
  \<^verbatim>\<open>Session file not found: <name>.zip\<close>, without the prefix of the operation.
  \<^verbatim>\<open>extract\<close> with no active row raises the message of a session not found or expired
  under the prefix \<^verbatim>\<open>Failed to extract session: \<close>, as for a database error.  A query
  that fails with message \<open>m\<close> makes its operation raise \<^verbatim>\<open>Failed to <operation>: m\<close>;
  for \<^verbatim>\<open>save\<close> this holds when the code of the failure is not \<^verbatim>\<open>ENOENT\<close>.
\<close>

theorem not_found_and_wrapped_errors:
  "(healthy st \<and> files fsys (session @ ''.zip'') = None \<and>
      access_fault fsys (session @ ''.zip'') = None \<longrightarrow>
      fst (save st fsys session tMod tExp tDb) =
        Inl (Error (''Session file not found: '' @ session @ ''.zip''))) \<and>
   (healthy st \<and> sql_select_active (getSessionId session) tSel (table_rows st) = [] \<longrightarrow>
      fst (extract_session st fsys session path tSel tUpd) =
        Inl (Error (''Failed to extract session: Session '' @ session @
                      '' not found or expired''))) \<and>
   (initialized st \<and> \<not> ended (pool st) \<and> faults (pool st) = Some e # rest \<longrightarrow>
      fst (sessionExists st session now) =
        Inl (Error (''Failed to check session existence: '' @ message e)) \<and>
      fst (extract_session st fsys session path tSel tUpd) =
        Inl (Error (''Failed to extract session: '' @ message e)) \<and>
      fst (delete st session) = Inl (Error (''Failed to delete session: '' @ message e)) \<and>
      fst (listSessions st now) = Inl (Error (''Failed to list sessions: '' @ message e)) \<and>
      fst (getSessionMetadata st session now) =
        Inl (Error (''Failed to get session metadata: '' @ message e)) \<and>
      fst (updateSessionMetadata st session md now) =
        Inl (Error (''Failed to update session metadata: '' @ message e)) \<and>
      fst (cleanupExpiredSessions st now) =
        Inl (Error (''Failed to cleanup expired sessions: '' @ message e)) \<and>
      fst (getStats st now) = Inl (Error (''Failed to get stats: '' @ message e)) \<and>
      (archive_at fsys session d \<and> code e \<noteq> Some ''ENOENT'' \<longrightarrow>
         fst (save st fsys session tMod tExp tDb) =
           Inl (Error (''Failed to save session: '' @ message e))))"
proof (intro conjI impI)
  assume "healthy st \<and> files fsys (session @ ''.zip'') = None \<and>
      access_fault fsys (session @ ''.zip'') = None"
  then show "fst (save st fsys session tMod tExp tDb) =
        Inl (Error (''Session file not found: '' @ session @ ''.zip''))"
    by (simp add: save_archive_missing)
next
  assume "healthy st \<and> sql_select_active (getSessionId session) tSel (table_rows st) = []"
  then show "fst (extract_session st fsys session path tSel tUpd) =
        Inl (Error (''Failed to extract session: Session '' @ session @
                      '' not found or expired''))"
    by (simp add: extract_not_found)
next
  assume a: "initialized st \<and> \<not> ended (pool st) \<and> faults (pool st) = Some e # rest"
  then have f: "initialized st" "\<not> ended (pool st)" "faults (pool st) = Some e # rest"
    by simp_all
  note w = query_failure_wrapped[OF f]
  show "fst (sessionExists st session now) =
        Inl (Error (''Failed to check session existence: '' @ message e))"
    by (rule w(1))
  show "fst (extract_session st fsys session path tSel tUpd) =
        Inl (Error (''Failed to extract session: '' @ message e))"
    by (rule w(2))
  show "fst (delete st session) = Inl (Error (''Failed to delete session: '' @ message e))"
    by (rule w(3))
  show "fst (listSessions st now) = Inl (Error (''Failed to list sessions: '' @ message e))"
    by (rule w(4))
  show "fst (getSessionMetadata st session now) =
        Inl (Error (''Failed to get session metadata: '' @ message e))"
    by (rule w(5))
  show "fst (updateSessionMetadata st session md now) =
        Inl (Error (''Failed to update session metadata: '' @ message e))"
    by (rule w(6))
  show "fst (cleanupExpiredSessions st now) =
        Inl (Error (''Failed to cleanup expired sessions: '' @ message e))"
    by (rule w(7))
  show "fst (getStats st now) = Inl (Error (''Failed to get stats: '' @ message e))"
    by (rule w(8))
  assume b: "archive_at fsys session d \<and> code e \<noteq> Some ''ENOENT''"
  show "fst (save st fsys session tMod tExp tDb) =
           Inl (Error (''Failed to save session: '' @ message e))"
    by (rule w(9)[OF conjunct1[OF b] conjunct2[OF b]])
qed

theorem not_found_and_wrapped_errors_witness:
  "fst (save ab_store (archive_fs ''t'' []) ''s'' 0 0 0) =
     Inl (Error ''Session file not found: s.zip'') \<and>
   fst (extract_session ab_store (archive_fs ''s'' []) ''t'' ''out.zip'' 5 6) =
     Inl (Error ''Failed to extract session: Session t not found or expired'') \<and>
   fst (delete (ab_store\<lparr>pool := (pool ab_store)\<lparr>faults :=
                  [Some (Error ''Connection terminated'')]\<rparr>\<rparr>) ''s'') =
     Inl (Error ''Failed to delete session: Connection terminated'') \<and>
   fst (save (ab_store\<lparr>pool := (pool ab_store)\<lparr>faults :=
                [Some (Error ''Connection terminated'')]\<rparr>\<rparr>) (archive_fs ''s'' [1]) ''s'' 0 0 0) =
     Inl (Error ''Failed to save session: Connection terminated'')"
proof -
  let ?bad = "ab_store\<lparr>pool := (pool ab_store)\<lparr>faults :=
                [Some (Error ''Connection terminated'')]\<rparr>\<rparr>"
  have miss: "healthy ab_store \<and> files (archive_fs ''t'' []) (''s'' @ ''.zip'') = None \<and>
      access_fault (archive_fs ''t'' []) (''s'' @ ''.zip'') = None"
    by (simp add: ab_store_facts(1) archive_fs_def)
  have sel: "healthy ab_store \<and>
      sql_select_active (getSessionId ''t'') 5 (table_rows ab_store) = []"
    by (simp add: ab_store_facts(1,2) sql_select_active_def getSessionId_def ab_row_def)
  have f: "initialized ?bad \<and> \<not> ended (pool ?bad) \<and>
      faults (pool ?bad) = Some (Error ''Connection terminated'') # []"
    by (simp add: ab_store_def fresh_pool_def)
  have ar: "archive_at (archive_fs ''s'' [1]) ''s'' [1] \<and>
      code (Error ''Connection terminated'') \<noteq> Some ''ENOENT''"
    by (simp add: archive_fs_at Error_def)
  note t1 = not_found_and_wrapped_errors[where st = ab_store and fsys = "archive_fs ''t'' []"
      and session = "''s''" and tMod = 0 and tExp = 0 and tDb = 0 and tSel = 0
      and path = "''out.zip''" and tUpd = 0 and e = "Error ''x''" and rest = "[]" and now = 0
      and md = Map.empty and d = "[]",
      THEN conjunct1, THEN mp, OF miss]
  note t2 = not_found_and_wrapped_errors[where st = ab_store and fsys = "archive_fs ''s'' []"
      and session = "''t''" and tMod = 0 and tExp = 0 and tDb = 0 and tSel = 5
      and path = "''out.zip''" and tUpd = 6 and e = "Error ''x''" and rest = "[]" and now = 0
      and md = Map.empty and d = "[]",
      THEN conjunct2, THEN conjunct1, THEN mp, OF sel]
  note t3 = not_found_and_wrapped_errors[where st = ?bad and fsys = "archive_fs ''s'' [1]"
      and session = "''s''" and tMod = 0 and tExp = 0 and tDb = 0 and tSel = 0
      and path = "''out.zip''" and tUpd = 0 and e = "Error ''Connection terminated''"
      and rest = "[]" and now = 0 and md = Map.empty and d = "[1]",
      THEN conjunct2, THEN conjunct2, THEN mp, OF f]
  from t3 have t3a: "fst (delete ?bad ''s'') =
      Inl (Error (''Failed to delete session: '' @ message (Error ''Connection terminated'')))"
    by (elim conjE)
  from t3 have "archive_at (archive_fs ''s'' [1]) ''s'' [1] \<and>
      code (Error ''Connection terminated'') \<noteq> Some ''ENOENT'' \<longrightarrow>
      fst (save ?bad (archive_fs ''s'' [1]) ''s'' 0 0 0) =
        Inl (Error (''Failed to save session: '' @ message (Error ''Connection terminated'')))"
    by (elim conjE)
  from mp[OF this ar] have t3b: "fst (save ?bad (archive_fs ''s'' [1]) ''s'' 0 0 0) =
        Inl (Error (''Failed to save session: '' @ message (Error ''Connection terminated'')))" .
  have m: "message (Error ''Connection terminated'') = ''Connection terminated''"
    by (simp add: Error_def)
  from t1 t2 t3a t3b show ?thesis
    by (simp add: m)
qed

subsection \<open>Saving twice\<close>

lemma varchar255_long_name:
  "varchar255 (getSessionId long_name) = Inr (''whatsapp-'' @ replicate 246 (CHR ''a''))"
  by (simp add: varchar255_def getSessionId_def long_name_def)

lemma long_name_key_differs:
  "getSessionId long_name \<noteq> ''whatsapp-'' @ replicate 246 (CHR ''a'')"
  "strip_namespace (''whatsapp-'' @ replicate 246 (CHR ''a'')) = replicate 246 (CHR ''a'')"
  "replicate 246 (CHR ''a'') \<noteq> long_name"
  by (simp_all add: getSessionId_def long_name_def strip_namespace_def)

lemma save_ok_key:
  assumes "healthy st" and "archive_at fsys session d"
    and "save st fsys session tMod tExp tDb = (Inr (), st')"
  shows "\<exists>k. varchar255 (getSessionId session) = Inr k"
proof (cases "varchar255 (getSessionId session)")
  case (Inl e)
  note h = ensureInitialized_healthy[OF assms(1)]
  have p: "\<not> ended (pool (init st))" "faults (pool (init st)) = []"
    using h(3) by (auto simp: healthy_def)
  have "fst (save st fsys session tMod tExp tDb) = Inl (save_catch (session @ ''.zip'') e)"
    using assms(2) h(1,4,6) Inl
    by (simp add: save_def archive_at_def fs_access_def fs_readFile_def pool_query_ok[OF p]
        on_table_def sql_upsert_def)
  with assms(3) show ?thesis by simp
next
  case (Inr k)
  then show ?thesis by (rule exI)
qed

lemma varchar255_cases:
  assumes "varchar255 s = Inr k"
  shows "length k \<le> 255" and "length s \<le> 255 \<Longrightarrow> k = s" and "take 9 k = take 9 s"
  using assms by (auto simp: varchar255_def split: if_splits)

lemma row_by_key_save:
  assumes "healthy st" and "archive_at fsys session d"
    and "varchar255 (getSessionId session) = Inr k"
  shows "row_by_key (snd (save st fsys session tMod tExp tDb)) k =
           Some (case row_by_key st k of
                   None \<Rightarrow> \<lparr>session_id = k, session_data = d,
                             metadata = saved_metadata session d tMod, created_at = tDb,
                             updated_at = tDb, expires_at = saved_expiresAt st tExp\<rparr>
                 | Some r \<Rightarrow> r\<lparr>session_data := d, metadata := saved_metadata session d tMod,
                               updated_at := tDb, expires_at := saved_expiresAt st tExp\<rparr>)"
proof (cases "row_by_key st k")
  case None
  then have f: "find (\<lambda>r. session_id r = k) (table_rows st) = None"
    by (simp add: row_by_key_def)
  then have "k \<notin> set (map session_id (table_rows st))"
    by (auto simp: find_None_iff)
  then show ?thesis
    using None f
    by (simp add: row_by_key_def save_stored_after[OF assms] upsert_rows_def find_append_None)
next
  case (Some r)
  let ?f = "\<lambda>r. if session_id r = k
                  then r\<lparr>session_data := d, metadata := saved_metadata session d tMod,
                         updated_at := tDb, expires_at := saved_expiresAt st tExp\<rparr> else r"
  from Some have r: "find (\<lambda>r. session_id r = k) (table_rows st) = Some r"
    by (simp add: row_by_key_def)
  then have sid: "session_id r = k" and mem: "r \<in> set (table_rows st)"
    by (auto simp: find_Some_iff in_set_conv_nth)
  have "find (\<lambda>r. session_id r = k) (map ?f (table_rows st)) =
          map_option ?f (find (\<lambda>r. session_id r = k) (table_rows st))"
    by (rule find_map_same) simp
  moreover from sid mem have "k \<in> set (map session_id (table_rows st))"
    by force
  ultimately show ?thesis
    using Some by (simp add: row_by_key_def save_stored_after[OF assms] upsert_rows_def r sid)
qed

lemma find_SomeD: "find P xs = Some r \<Longrightarrow> r \<in> set xs \<and> P r"
  by (induction xs) (auto split: if_splits)

lemma upsert_rows_length:
  "k \<in> set (map session_id rs) \<Longrightarrow> length (upsert_rows k d md ex now rs) = length rs"
  by (simp add: upsert_rows_def)

text \<open>
  Claim C2.  Two successful calls of \<^verbatim>\<open>save\<close> for one name, the second with a later
  \<^verbatim>\<open>NOW()\<close>, leave exactly one row under the key of the name (the namespaced name as
  the key column stores it, which is the namespaced name itself when that has at most 255
  characters); the second call inserts no row.  The row holds the content of the second
  archive, its \<^verbatim>\<open>updated_at\<close> is greater than after the first call, and its
  \<^verbatim>\<open>created_at\<close> is the one it had after the first call.
\<close>

theorem save_twice_is_upsert:
  assumes "healthy st" and "primary_key (table_rows st)"
    and "archive_at fs1 session d1" and "archive_at fs2 session d2"
    and "save st fs1 session m1 e1 t1 = (Inr (), st1)"
    and "save st1 fs2 session m2 e2 t2 = (Inr (), st2)"
    and "t1 < t2"
  shows "\<exists>k r1 r2. varchar255 (getSessionId session) = Inr k \<and>
           (length (getSessionId session) \<le> 255 \<longrightarrow> k = getSessionId session) \<and>
           row_by_key st1 k = Some r1 \<and> row_by_key st2 k = Some r2 \<and>
           filter (\<lambda>r. session_id r = k) (table_rows st2) = [r2] \<and>
           length (table_rows st2) = length (table_rows st1) \<and>
           session_data r2 = d2 \<and>
           updated_at r1 = t1 \<and> updated_at r2 = t2 \<and> updated_at r1 < updated_at r2 \<and>
           created_at r2 = created_at r1"
proof -
  from save_ok_key[OF assms(1,3,5)] obtain k where k: "varchar255 (getSessionId session) = Inr k"
    by (rule exE)
  have st1: "st1 = snd (save st fs1 session m1 e1 t1)"
    by (simp add: assms(5))
  have h1: "healthy st1"
    unfolding st1 by (rule save_stored_after(2)[OF assms(1,3) k])
  have pk1: "primary_key (table_rows st1)"
    unfolding st1 by (simp add: save_stored_after(4)[OF assms(1,3) k] primary_key_upsert assms(2))
  have st2: "st2 = snd (save st1 fs2 session m2 e2 t2)"
    by (simp add: assms(6))
  have rows2: "table_rows st2 =
      upsert_rows k d2 (saved_metadata session d2 m2) (saved_expiresAt st1 e2) t2 (table_rows st1)"
    unfolding st2 by (rule save_stored_after(4)[OF h1 assms(4) k])
  have pk2: "primary_key (table_rows st2)"
    by (simp add: rows2 primary_key_upsert pk1)
  obtain r1 where r1: "row_by_key st1 k = Some r1" and u1: "updated_at r1 = t1"
    unfolding st1 by (simp add: row_by_key_save[OF assms(1,3) k] split: option.splits)
  from r1 have "r1 \<in> set (table_rows st1) \<and> session_id r1 = k"
    unfolding row_by_key_def by (rule find_SomeD)
  then have "k \<in> set (map session_id (table_rows st1))"
    by force
  then have len: "length (table_rows st2) = length (table_rows st1)"
    by (simp add: rows2 upsert_rows_length)
  let ?r2 = "r1\<lparr>session_data := d2, metadata := saved_metadata session d2 m2,
                 updated_at := t2, expires_at := saved_expiresAt st1 e2\<rparr>"
  have r2: "row_by_key st2 k = Some ?r2"
    unfolding st2 by (simp add: row_by_key_save[OF h1 assms(4) k] r1)
  have one: "filter (\<lambda>r. session_id r = k) (table_rows st2) = [?r2]"
    using pk2 r2 unfolding primary_key_def row_by_key_def by (rule distinct_find_filter)
  show ?thesis
  proof (intro exI conjI)
    show "varchar255 (getSessionId session) = Inr k" by (rule k)
    show "length (getSessionId session) \<le> 255 \<longrightarrow> k = getSessionId session"
      using varchar255_cases(2)[OF k] by simp
    show "row_by_key st1 k = Some r1" by (rule r1)
    show "row_by_key st2 k = Some ?r2" by (rule r2)
    show "filter (\<lambda>r. session_id r = k) (table_rows st2) = [?r2]" by (rule one)
    show "length (table_rows st2) = length (table_rows st1)" by (rule len)
    show "session_data ?r2 = d2" by simp
    show "updated_at r1 = t1" by (rule u1)
    show "updated_at ?r2 = t2" by simp
    show "updated_at r1 < updated_at ?r2" using u1 assms(7) by simp
    show "created_at ?r2 = created_at r1" by simp
  qed
qed

theorem save_twice_is_upsert_witness:
  "healthy (fresh_store None) \<and> primary_key (table_rows (fresh_store None)) \<and>
   archive_at (archive_fs long_name [1, 2, 3]) long_name [1, 2, 3] \<and>
   archive_at (archive_fs long_name [4, 5]) long_name [4, 5] \<and>
   fst (save (fresh_store None) (archive_fs long_name [1, 2, 3]) long_name 0 0 0) = Inr () \<and>
   fst (save (snd (save (fresh_store None) (archive_fs long_name [1, 2, 3]) long_name 0 0 0))
          (archive_fs long_name [4, 5]) long_name 20 20 20) = Inr () \<and>
   varchar255 (getSessionId long_name) = Inr (''whatsapp-'' @ replicate 246 (CHR ''a'')) \<and>
   (\<exists>k r1 r2. varchar255 (getSessionId long_name) = Inr k \<and>
      (length (getSessionId long_name) \<le> 255 \<longrightarrow> k = getSessionId long_name) \<and>
      row_by_key (snd (save (fresh_store None) (archive_fs long_name [1, 2, 3]) long_name 0 0 0)) k
        = Some r1 \<and>
      row_by_key
        (snd (save (snd (save (fresh_store None) (archive_fs long_name [1, 2, 3]) long_name 0 0 0))
                (archive_fs long_name [4, 5]) long_name 20 20 20)) k = Some r2 \<and>
      filter (\<lambda>r. session_id r = k)
        (table_rows
          (snd (save (snd (save (fresh_store None) (archive_fs long_name [1, 2, 3]) long_name 0 0 0))
                  (archive_fs long_name [4, 5]) long_name 20 20 20))) = [r2] \<and>
      length (table_rows
          (snd (save (snd (save (fresh_store None) (archive_fs long_name [1, 2, 3]) long_name 0 0 0))
                  (archive_fs long_name [4, 5]) long_name 20 20 20))) =
        length (table_rows
          (snd (save (fresh_store None) (archive_fs long_name [1, 2, 3]) long_name 0 0 0))) \<and>
      session_data r2 = [4, 5] \<and> updated_at r1 = 0 \<and> updated_at r2 = 20 \<and>
      updated_at r1 < updated_at r2 \<and> created_at r2 = created_at r1)"
proof -
  let ?st1 = "snd (save (fresh_store None) (archive_fs long_name [1, 2, 3]) long_name 0 0 0)"
  let ?st2 = "snd (save ?st1 (archive_fs long_name [4, 5]) long_name 20 20 20)"
  note a = save_stored_after[OF fresh_store_healthy(1) archive_fs_at varchar255_long_name,
      of None "[1, 2, 3]" 0 0 0]
  note b = save_stored_after[OF a(2) archive_fs_at varchar255_long_name, of "[4, 5]" 20 20 20]
  have pk: "primary_key (table_rows (fresh_store None))"
    by (simp add: fresh_store_healthy primary_key_def)
  have s1: "save (fresh_store None) (archive_fs long_name [1, 2, 3]) long_name 0 0 0 = (Inr (), ?st1)"
    using a(1) by (simp add: prod_eq_iff)
  have s2: "save ?st1 (archive_fs long_name [4, 5]) long_name 20 20 20 = (Inr (), ?st2)"
    using b(1) by (simp add: prod_eq_iff)
  have lt: "(0::int) < 20" by simp
  note t = save_twice_is_upsert[OF fresh_store_healthy(1) pk archive_fs_at archive_fs_at s1 s2 lt]
  from fresh_store_healthy(1) pk archive_fs_at archive_fs_at a(1) b(1) varchar255_long_name t
  show ?thesis
    by (intro conjI)
qed

subsection \<open>The order of the listing\<close>

lemma find_map_keep:
  "(\<And>x. P (g x) = P x) \<Longrightarrow> (\<And>x. P x \<Longrightarrow> g x = x) \<Longrightarrow> find P (map g xs) = find P xs"
  by (induction xs) auto

lemma find_append_not: "\<not> P y \<Longrightarrow> find P (xs @ [y]) = find P xs"
  by (induction xs) auto

lemma upsert_rows_other:
  "k' \<noteq> k \<Longrightarrow>
   find (\<lambda>r. session_id r = k') (upsert_rows k d md ex now rs) = find (\<lambda>r. session_id r = k') rs"
  by (simp add: upsert_rows_def find_map_keep find_append_not)

lemma row_of_save_other:
  assumes "healthy st" and "archive_at fsys b d" and "length (getSessionId b) \<le> 255"
    and "a \<noteq> b"
  shows "row_of (snd (save st fsys b tMod tExp tDb)) a = row_of st a"
  using assms(4)
  by (simp add: row_of_def save_healthy_after(4)[OF assms(1,2,3)] upsert_rows_other
      getSessionId_inject)

lemma filter_two_keys:
  assumes "distinct (map k xs)"
    and "find (\<lambda>x. k x = a) xs = Some ra" and "find (\<lambda>x. k x = b) xs = Some rb"
    and "a \<noteq> b"
  shows "filter (\<lambda>x. k x = a \<or> k x = b) xs = [ra, rb] \<or>
         filter (\<lambda>x. k x = a \<or> k x = b) xs = [rb, ra]"
  using assms
proof (induction xs)
  case Nil
  then show ?case by simp
next
  case (Cons x xs)
  from Cons.prems(1) have d: "distinct (map k xs)" and nx: "\<forall>y\<in>set xs. k y \<noteq> k x"
    by (auto simp: image_iff)
  consider "k x = a" | "k x = b" | "k x \<noteq> a \<and> k x \<noteq> b"
    by blast
  then show ?case
  proof cases
    case 1
    with Cons.prems(2,3,4) have x: "x = ra" and fb: "find (\<lambda>x. k x = b) xs = Some rb"
      by simp_all
    from distinct_find_filter[OF d fb] have "filter (\<lambda>x. k x = b) xs = [rb]" .
    moreover have "filter (\<lambda>x. k x = a \<or> k x = b) xs = filter (\<lambda>x. k x = b) xs"
      using nx 1 by (intro filter_cong refl) auto
    ultimately show ?thesis
      using 1 x by simp
  next
    case 2
    with Cons.prems(2,3,4) have x: "x = rb" and fa: "find (\<lambda>x. k x = a) xs = Some ra"
      by simp_all
    from distinct_find_filter[OF d fa] have "filter (\<lambda>x. k x = a) xs = [ra]" .
    moreover have "filter (\<lambda>x. k x = a \<or> k x = b) xs = filter (\<lambda>x. k x = a) xs"
      using nx 2 by (intro filter_cong refl) auto
    ultimately show ?thesis
      using 2 x by simp
  next
    case 3
    with Cons.prems(2,3) have "find (\<lambda>x. k x = a) xs = Some ra" "find (\<lambda>x. k x = b) xs = Some rb"
      by simp_all
    from Cons.IH[OF d this Cons.prems(4)] 3 show ?thesis
      by simp
  qed
qed

lemma sort_two_rows:
  assumes "updated_at ra < updated_at rb" and "M = [ra, rb] \<or> M = [rb, ra]"
  shows "sort_key (\<lambda>r. - updated_at r) (filter (is_active now) M) = filter (is_active now) [rb, ra]"
  using assms by (elim disjE) simp_all

lemma listing_sorted:
  "sorted_wrt (\<lambda>x y. updatedAt y \<le> updatedAt x) (map to_info (sql_select_all_active now rs))"
proof -
  have "sorted (map (\<lambda>r. - updated_at r) (sort_key (\<lambda>r. - updated_at r) (filter (is_active now) rs)))"
    by (rule sorted_sort_key)
  then have "sorted_wrt (\<lambda>x y. - updated_at x \<le> - updated_at y)
               (sort_key (\<lambda>r. - updated_at r) (filter (is_active now) rs))"
    by (simp only: sorted_map)
  then show ?thesis
    by (simp add: sql_select_all_active_def sorted_wrt_map to_info_def)
qed

lemma listing_content:
  "set (map to_info (sql_select_all_active now rs)) = to_info ` {r \<in> set rs. is_active now r}"
  "length (map to_info (sql_select_all_active now rs)) = length (filter (is_active now) rs)"
  by (simp_all add: sql_select_all_active_def)

lemma namespaced_round_trip:
  assumes "namespaced rs" and "r \<in> set rs"
  shows "getSessionId (info_session (to_info r)) = session_id r"
    and "info_session (to_info r) = n \<longleftrightarrow> session_id r = getSessionId n"
proof -
  from assms have ns: "take 9 (session_id r) = ''whatsapp-''"
    by (simp add: namespaced_def list_all_iff)
  show "info_session (to_info r) = n \<longleftrightarrow> session_id r = getSessionId n"
    using strip_namespace_iff[OF ns, of n] by (simp add: to_info_def)
  from strip_namespace_iff[OF ns, of "strip_namespace (session_id r)"]
  show "getSessionId (info_session (to_info r)) = session_id r"
    by (simp add: to_info_def)
qed

lemma listing_two_names:
  assumes "primary_key rs" and "namespaced rs"
    and "find (\<lambda>r. session_id r = getSessionId a) rs = Some ra"
    and "find (\<lambda>r. session_id r = getSessionId b) rs = Some rb"
    and "a \<noteq> b" and "updated_at ra < updated_at rb"
  shows "filter (\<lambda>i. info_session i = a \<or> info_session i = b)
           (map to_info (sql_select_all_active now rs)) =
         map to_info (filter (is_active now) [rb, ra])"
proof -
  let ?f = "\<lambda>r. - updated_at r"
  let ?Q = "\<lambda>r. session_id r = getSessionId a \<or> session_id r = getSessionId b"
  let ?L = "sort_key ?f (filter (is_active now) rs)"
  have "filter (\<lambda>i. info_session i = a \<or> info_session i = b) (map to_info ?L) =
          map to_info (filter (\<lambda>r. info_session (to_info r) = a \<or> info_session (to_info r) = b) ?L)"
    by (simp add: filter_map comp_def)
  also have "filter (\<lambda>r. info_session (to_info r) = a \<or> info_session (to_info r) = b) ?L =
               filter ?Q ?L"
    by (rule filter_cong[OF refl]) (simp add: namespaced_round_trip(2)[OF assms(2)])
  also have "filter ?Q ?L = sort_key ?f (filter (is_active now) (filter ?Q rs))"
    by (simp add: filter_sort conj_commute)
  also have "\<dots> = filter (is_active now) [rb, ra]"
  proof (rule sort_two_rows[OF assms(6)])
    from assms(5) have "getSessionId a \<noteq> getSessionId b"
      by (simp add: getSessionId_inject)
    from filter_two_keys[OF assms(1)[unfolded primary_key_def] assms(3,4) this]
    show "filter ?Q rs = [ra, rb] \<or> filter ?Q rs = [rb, ra]" .
  qed
  finally show ?thesis
    by (simp add: sql_select_all_active_def)
qed

text \<open>
  Claim C8, as stated, fails for a name whose key does not fit the key column: the key of
  \<open>long_name\<close> is stored without its last character, and the listing gives back the name
  without the trailing space, which is not the name the caller saved.
\<close>

theorem listed_name_truncated_counterexample:
  "fst (save (fresh_store None) (archive_fs long_name [1]) long_name 1 1 1) = Inr () \<and>
   map_sum message (map info_session)
     (fst (listSessions (snd (save (fresh_store None) (archive_fs long_name [1]) long_name 1 1 1)) 2))
     = Inr [replicate 246 (CHR ''a'')] \<and>
   replicate 246 (CHR ''a'') \<noteq> long_name"
proof -
  note a = save_stored_after[OF fresh_store_healthy(1) archive_fs_at varchar255_long_name,
      of None "[1]" 1 1 1]
  have ex: "saved_expiresAt (fresh_store None) 1 = None"
    by (simp add: saved_expiresAt_def fresh_store_def)
  have "map_sum message (map info_session)
     (fst (listSessions (snd (save (fresh_store None) (archive_fs long_name [1]) long_name 1 1 1)) 2))
     = Inr [replicate 246 (CHR ''a'')]"
    by (simp add: listSessions_healthy_after[OF a(2)] a(4) fresh_store_healthy(2) upsert_rows_def
        sql_select_all_active_def is_active_def ex to_info_def strip_namespace_def)
  with a(1) long_name_key_differs(3) show ?thesis
    by (intro conjI)
qed

text \<open>
  Claim C8, amended: for names whose namespaced keys have at most 255 characters.  After
  \<open>a\<close> was saved at \<open>t1\<close> and \<open>b\<close> at a later \<open>t2\<close>, whatever rows the table held
  before, \<^verbatim>\<open>listSessions\<close> returns exactly the active rows, ordered by \<^verbatim>\<open>updated_at\<close>
  descending; the entries of \<open>a\<close> and \<open>b\<close> among them are the active ones of the two rows
  with the row of \<open>b\<close> first, so the two names are listed as \<open>[b, a]\<close> when both are
  active, and they are the whole listing when the table was empty before.  The name of
  every entry is the key without the namespace, and namespacing it gives the key back.
\<close>

theorem listSessions_order_and_names:
  assumes "healthy st" and "primary_key (table_rows st)" and "namespaced (table_rows st)"
    and "archive_at fs1 a d1" and "archive_at fs2 b d2"
    and "length (getSessionId a) \<le> 255" and "length (getSessionId b) \<le> 255"
    and "save st fs1 a m1 e1 t1 = (Inr (), st1)"
    and "save st1 fs2 b m2 e2 t2 = (Inr (), st2)"
    and "a \<noteq> b" and "t1 < t2"
  shows "\<exists>ra rb l.
           row_of st2 a = Some ra \<and> row_of st2 b = Some rb \<and>
           updated_at ra = t1 \<and> updated_at rb = t2 \<and>
           fst (listSessions st2 now) = Inr l \<and>
           sorted_wrt (\<lambda>x y. updatedAt y \<le> updatedAt x) l \<and>
           set l = to_info ` {r \<in> set (table_rows st2). is_active now r} \<and>
           length l = length (filter (is_active now) (table_rows st2)) \<and>
           (\<forall>r\<in>set (table_rows st2). getSessionId (info_session (to_info r)) = session_id r) \<and>
           filter (\<lambda>i. info_session i = a \<or> info_session i = b) l =
             map to_info (filter (is_active now) [rb, ra]) \<and>
           (table_rows st = [] \<longrightarrow> l = map to_info (filter (is_active now) [rb, ra])) \<and>
           info_session (to_info ra) = a \<and> info_session (to_info rb) = b \<and>
           strip_namespace (getSessionId a) = a \<and> strip_namespace (getSessionId b) = b \<and>
           (is_active now ra \<and> is_active now rb \<longrightarrow>
              filter (\<lambda>n. n = a \<or> n = b) (map info_session l) = [b, a]) \<and>
           (table_rows st = [] \<and> is_active now ra \<and> is_active now rb \<longrightarrow>
              map info_session l = [b, a])"
proof -
  let ?ka = "getSessionId a" and ?kb = "getSessionId b"
  have st1: "st1 = snd (save st fs1 a m1 e1 t1)"
    by (simp add: assms(8))
  note sv1 = save_healthy_after[OF assms(1,4,6), of m1 e1 t1, folded st1]
  have st2: "st2 = snd (save st1 fs2 b m2 e2 t2)"
    by (simp add: assms(9))
  note sv2 = save_healthy_after[OF sv1(2) assms(5,7), of m2 e2 t2, folded st2]
  have pk2: "primary_key (table_rows st2)"
    by (simp only: sv2(4) sv1(4) primary_key_upsert[OF primary_key_upsert[OF assms(2)]])
  have ns2: "namespaced (table_rows st2)"
    by (simp only: sv2(4) sv1(4) namespaced_upsert[OF namespaced_upsert[OF assms(3)]])
  obtain ra where ra1: "row_of st1 a = Some ra" and ua: "updated_at ra = t1"
    unfolding st1 by (simp add: row_of_save[OF assms(1,4,6)] split: option.splits)
  have ra: "row_of st2 a = Some ra"
    unfolding st2 by (simp only: row_of_save_other[OF sv1(2) assms(5,7,10)] ra1)
  obtain rb where rb: "row_of st2 b = Some rb" and ub: "updated_at rb = t2"
    unfolding st2 by (simp add: row_of_save[OF sv1(2) assms(5,7)] split: option.splits)
  let ?l = "map to_info (sql_select_all_active now (table_rows st2))"
  have l: "fst (listSessions st2 now) = Inr ?l"
    by (rule listSessions_healthy_after[OF sv2(2)])
  have lt: "updated_at ra < updated_at rb"
    using ua ub assms(11) by simp
  have two: "filter (\<lambda>i. info_session i = a \<or> info_session i = b) ?l =
               map to_info (filter (is_active now) [rb, ra])"
    by (rule listing_two_names[OF pk2 ns2 ra[unfolded row_of_def] rb[unfolded row_of_def]
          assms(10) lt])
  from ra have ma: "ra \<in> set (table_rows st2) \<and> session_id ra = ?ka"
    unfolding row_of_def by (rule find_SomeD)
  from rb have mb: "rb \<in> set (table_rows st2) \<and> session_id rb = ?kb"
    unfolding row_of_def by (rule find_SomeD)
  have na: "info_session (to_info ra) = a"
    using namespaced_round_trip(2)[OF ns2 conjunct1[OF ma], of a] ma by simp
  have nb: "info_session (to_info rb) = b"
    using namespaced_round_trip(2)[OF ns2 conjunct1[OF mb], of b] mb by simp
  have names: "filter (\<lambda>n. n = a \<or> n = b) (map info_session ?l) = [b, a]"
    if "is_active now ra \<and> is_active now rb"
  proof -
    have "filter (\<lambda>n. n = a \<or> n = b) (map info_session ?l) =
            map info_session (filter (\<lambda>i. info_session i = a \<or> info_session i = b) ?l)"
      by (simp only: filter_map comp_def)
    also have "\<dots> = map info_session (map to_info (filter (is_active now) [rb, ra]))"
      by (simp only: two)
    also have "\<dots> = [b, a]"
      using that na nb by simp
    finally show ?thesis .
  qed
  have whole: "?l = map to_info (filter (is_active now) [rb, ra])" if e: "table_rows st = []"
  proof -
    from assms(10) have kk: "?ka \<noteq> ?kb"
      by (simp add: getSessionId_inject)
    obtain x y where rows2: "table_rows st2 = [x, y]"
      and x: "session_id x = ?ka" and y: "session_id y = ?kb"
      using kk by (simp add: sv2(4) sv1(4) e upsert_rows_def)
    from ra x y kk have "x = ra"
      by (simp add: row_of_def rows2)
    moreover from rb x y kk have "y = rb"
      by (simp add: row_of_def rows2 split: if_splits)
    ultimately have "table_rows st2 = [ra, rb]"
      using rows2 by simp
    then show ?thesis
      using lt by (simp only: select_all_active_two)
  qed
  show ?thesis
  proof (intro exI conjI impI ballI)
    show "row_of st2 a = Some ra" by (rule ra)
    show "row_of st2 b = Some rb" by (rule rb)
    show "updated_at ra = t1" by (rule ua)
    show "updated_at rb = t2" by (rule ub)
    show "fst (listSessions st2 now) = Inr ?l" by (rule l)
    show "sorted_wrt (\<lambda>x y. updatedAt y \<le> updatedAt x) ?l" by (rule listing_sorted)
    show "set ?l = to_info ` {r \<in> set (table_rows st2). is_active now r}"
      by (rule listing_content(1))
    show "length ?l = length (filter (is_active now) (table_rows st2))"
      by (rule listing_content(2))
    show "getSessionId (info_session (to_info r)) = session_id r"
      if "r \<in> set (table_rows st2)" for r
      by (rule namespaced_round_trip(1)[OF ns2 that])
    show "filter (\<lambda>i. info_session i = a \<or> info_session i = b) ?l =
             map to_info (filter (is_active now) [rb, ra])"
      by (rule two)
    show "?l = map to_info (filter (is_active now) [rb, ra])" if "table_rows st = []"
      by (rule whole[OF that])
    show "info_session (to_info ra) = a" by (rule na)
    show "info_session (to_info rb) = b" by (rule nb)
    show "strip_namespace (getSessionId a) = a" by (rule strip_namespace_getSessionId)
    show "strip_namespace (getSessionId b) = b" by (rule strip_namespace_getSessionId)
    show "filter (\<lambda>n. n = a \<or> n = b) (map info_session ?l) = [b, a]"
      if "is_active now ra \<and> is_active now rb"
      by (rule names[OF that])
    show "map info_session ?l = [b, a]"
      if "table_rows st = [] \<and> is_active now ra \<and> is_active now rb"
      using that whole na nb by simp
  qed
qed

text \<open>The table holds \<open>a\<close> (saved at 0) and \<open>c\<close> (saved at 1); then \<open>a\<close> is saved
  again at 2 and \<open>b\<close> at 3.  The rows are in the order \<open>a, c, b\<close>; the listing is
  \<open>b, a, c\<close>.\<close>

theorem listSessions_order_and_names_witness:
  "healthy (snd (save (snd (save (fresh_store None) (archive_fs ''a'' [1]) ''a'' 0 0 0))
                  (archive_fs ''c'' [3]) ''c'' 1 1 1)) \<and>
   map session_id
     (table_rows
       (snd (save (snd (save (snd (save (snd (save (fresh_store None) (archive_fs ''a'' [1]) ''a'' 0 0 0))
                                      (archive_fs ''c'' [3]) ''c'' 1 1 1))
                         (archive_fs ''a'' [1]) ''a'' 2 2 2))
               (archive_fs ''b'' [2]) ''b'' 3 3 3))) =
     [''whatsapp-a'', ''whatsapp-c'', ''whatsapp-b''] \<and>
   (\<exists>l. fst (listSessions
               (snd (save (snd (save (snd (save (snd (save (fresh_store None) (archive_fs ''a'' [1]) ''a'' 0 0 0))
                                      (archive_fs ''c'' [3]) ''c'' 1 1 1))
                         (archive_fs ''a'' [1]) ''a'' 2 2 2))
               (archive_fs ''b'' [2]) ''b'' 3 3 3)) 4) = Inr l \<and>
        map info_session l = [''b'', ''a'', ''c''] \<and>
        map updatedAt l = [3, 2, 1] \<and>
        sorted_wrt (\<lambda>x y. updatedAt y \<le> updatedAt x) l \<and>
        filter (\<lambda>n. n = ''a'' \<or> n = ''b'') (map info_session l) = [''b'', ''a''])"
proof -
  let ?s0 = "snd (save (fresh_store None) (archive_fs ''a'' [1]) ''a'' 0 0 0)"
  let ?st = "snd (save ?s0 (archive_fs ''c'' [3]) ''c'' 1 1 1)"
  let ?st1 = "snd (save ?st (archive_fs ''a'' [1]) ''a'' 2 2 2)"
  let ?st2 = "snd (save ?st1 (archive_fs ''b'' [2]) ''b'' 3 3 3)"
  have len: "length (getSessionId ''a'') \<le> 255" "length (getSessionId ''b'') \<le> 255"
    "length (getSessionId ''c'') \<le> 255"
    by (simp_all add: getSessionId_def)
  note s0 = save_healthy_after[OF fresh_store_healthy(1) archive_fs_at len(1), of None "[1]" 0 0 0]
  note s = save_healthy_after[OF s0(2) archive_fs_at len(3), of "[3]" 1 1 1]
  note s1 = save_healthy_after[OF s(2) archive_fs_at len(1), of "[1]" 2 2 2]
  note s2 = save_healthy_after[OF s1(2) archive_fs_at len(2), of "[2]" 3 3 3]
  have pk: "primary_key (table_rows ?st)"
    by (simp only: s(4) s0(4) fresh_store_healthy(2))
      (intro primary_key_upsert, simp add: primary_key_def)
  have ns: "namespaced (table_rows ?st)"
    by (simp only: s(4) s0(4) fresh_store_healthy(2))
      (intro namespaced_upsert, simp add: namespaced_def)
  have e1: "save ?st (archive_fs ''a'' [1]) ''a'' 2 2 2 = (Inr (), ?st1)"
    using s1(1) by (simp add: prod_eq_iff)
  have e2: "save ?st1 (archive_fs ''b'' [2]) ''b'' 3 3 3 = (Inr (), ?st2)"
    using s2(1) by (simp add: prod_eq_iff)
  have ne: "''a'' \<noteq> ''b''" and lt: "(2::int) < 3"
    by simp_all
  have ttl0: "sessionTTL (fresh_store None) = None"
    by (simp add: fresh_store_def)
  have ex: "saved_expiresAt (fresh_store None) e = None" "saved_expiresAt ?s0 e = None"
    "saved_expiresAt ?st e = None" "saved_expiresAt ?st1 e = None" for e
    by (simp_all add: saved_expiresAt_def s0(5) s(5) s1(5) ttl0)
  let ?ra = "\<lparr>session_id = ''whatsapp-a'', session_data = [1],
               metadata = saved_metadata ''a'' [1] 2, created_at = 0, updated_at = 2,
               expires_at = None\<rparr>"
  let ?rc = "\<lparr>session_id = ''whatsapp-c'', session_data = [3],
               metadata = saved_metadata ''c'' [3] 1, created_at = 1, updated_at = 1,
               expires_at = None\<rparr>"
  let ?rb = "\<lparr>session_id = ''whatsapp-b'', session_data = [2],
               metadata = saved_metadata ''b'' [2] 3, created_at = 3, updated_at = 3,
               expires_at = None\<rparr>"
  have rows: "table_rows ?st2 = [?ra, ?rc, ?rb]"
    by (simp add: s2(4) s1(4) s(4) s0(4) fresh_store_healthy(2) upsert_rows_def getSessionId_def ex)
  have ids: "map session_id (table_rows ?st2) = [''whatsapp-a'', ''whatsapp-c'', ''whatsapp-b'']"
    by (simp add: rows)
  have lst: "fst (listSessions ?st2 4) = Inr (map to_info [?rb, ?ra, ?rc])"
    by (simp add: listSessions_healthy_after[OF s2(2)] rows sql_select_all_active_def is_active_def)
  from listSessions_order_and_names[OF s(2) pk ns archive_fs_at archive_fs_at len(1,2) e1 e2 ne lt,
      of 4]
  obtain ra rb l where ra: "row_of ?st2 ''a'' = Some ra" and rb: "row_of ?st2 ''b'' = Some rb"
    and l: "fst (listSessions ?st2 4) = Inr l"
    and srt: "sorted_wrt (\<lambda>x y. updatedAt y \<le> updatedAt x) l"
    and two: "is_active 4 ra \<and> is_active 4 rb \<longrightarrow>
                filter (\<lambda>n. n = ''a'' \<or> n = ''b'') (map info_session l) = [''b'', ''a'']"
    by (elim exE conjE)
  have "row_of ?st2 ''a'' = Some ?ra" and "row_of ?st2 ''b'' = Some ?rb"
    by (simp_all add: row_of_def rows getSessionId_def)
  with ra rb have "ra = ?ra" and "rb = ?rb"
    by simp_all
  then have "is_active 4 ra \<and> is_active 4 rb"
    by (simp add: is_active_def)
  with two have f: "filter (\<lambda>n. n = ''a'' \<or> n = ''b'') (map info_session l) = [''b'', ''a'']"
    by (rule mp)
  from l lst have leq: "l = map to_info [?rb, ?ra, ?rc]"
    by simp
  have n: "map info_session l = [''b'', ''a'', ''c'']" and u: "map updatedAt l = [3, 2, 1]"
    by (simp_all add: leq to_info_def strip_namespace_def)
  from l n u srt f have "\<exists>l. fst (listSessions ?st2 4) = Inr l \<and>
        map info_session l = [''b'', ''a'', ''c''] \<and>
        map updatedAt l = [3, 2, 1] \<and>
        sorted_wrt (\<lambda>x y. updatedAt y \<le> updatedAt x) l \<and>
        filter (\<lambda>n. n = ''a'' \<or> n = ''b'') (map info_session l) = [''b'', ''a'']"
    by (intro exI[of _ l] conjI)
  with s(2) ids show ?thesis
    by (intro conjI)
qed

subsection \<open>Expiration of a saved session\<close>

lemma constructor_sessionTTL:
  assumes "constructor new_Pool opts = Inr st" and "opt_sessionTTL opts = Some T"
  shows "sessionTTL st = (if T = 0 then None else Some T)"
  using assms by (auto simp: constructor_def Let_def split: option.splits)

text \<open>
  Claim C1, as stated, fails in two places.  For \<open>T = 0\<close>:
  \<^verbatim>\<open>options.sessionTTL || null\<close> and the test \<^verbatim>\<open>this.sessionTTL ? ... : null\<close> take zero
  for no TTL, so the session saved at time 0 gets no expiration and is still present at
  time 5.  For a name whose key does not fit the key column: \<open>long_name\<close> is saved at
  time 0 under a TTL of 60 seconds, its key is stored without its last character, and
  \<^verbatim>\<open>sessionExists\<close> looks for the whole key, so the session is absent at time 1.
\<close>

theorem ttl_filtering_counterexample:
  "constructor (\<lambda>c. fresh_pool)
     \<lparr>opt_pool = Some fresh_pool, opt_connectionConfig = None, opt_tableName = None,
      opt_sessionTTL = Some 0\<rparr> = Inr (fresh_store None) \<and>
   saved_store None = snd (save (fresh_store None) (archive_fs ''s'' [1, 2, 3]) ''s'' 0 0 0) \<and>
   fst (sessionExists (saved_store None) ''s'' 5) = Inr True \<and>
   fst (sessionExists (saved_store (Some 0)) ''s'' 5) = Inr True \<and>
   fst (save (fresh_store (Some 60)) (archive_fs long_name [1]) long_name 0 0 0) = Inr () \<and>
   fst (sessionExists
          (snd (save (fresh_store (Some 60)) (archive_fs long_name [1]) long_name 0 0 0))
          long_name 1) = Inr False"
proof -
  have z: "constructor (\<lambda>c. fresh_pool)
     \<lparr>opt_pool = Some fresh_pool, opt_connectionConfig = None, opt_tableName = None,
      opt_sessionTTL = Some 0\<rparr> = Inr (fresh_store None) \<and>
   saved_store None = snd (save (fresh_store None) (archive_fs ''s'' [1, 2, 3]) ''s'' 0 0 0) \<and>
   fst (sessionExists (saved_store None) ''s'' 5) = Inr True \<and>
   fst (sessionExists (saved_store (Some 0)) ''s'' 5) = Inr True"
    by (simp add: constructor_def fresh_store_def[symmetric] saved_store_def[symmetric]
        sessionExists_healthy saved_store_facts sql_select_active_def getSessionId_def
        is_active_def saved_expiresAt_def)
      (simp add: fresh_store_def)
  note a = save_stored_after[OF fresh_store_healthy(1) archive_fs_at varchar255_long_name,
      of "Some 60" "[1]" 0 0 0]
  have "sql_select_active (getSessionId long_name) 1
          (table_rows (snd (save (fresh_store (Some 60)) (archive_fs long_name [1]) long_name 0 0 0)))
          = []"
    by (simp add: a(4) fresh_store_healthy(2) upsert_rows_def sql_select_active_def)
      (simp add: getSessionId_def long_name_def)
  then have "fst (sessionExists
          (snd (save (fresh_store (Some 60)) (archive_fs long_name [1]) long_name 0 0 0))
          long_name 1) = Inr False"
    by (simp add: sessionExists_healthy[OF a(2)])
  with z a(1) show ?thesis
    by (intro conjI) (elim conjE, assumption)+
qed

text \<open>
  Claim C1, amended: for a name whose namespaced key has at most 255 characters, and with
  a TTL of zero read as no TTL.  The store holds the TTL as the constructor leaves it,
  none for zero.  After a session was saved at time \<open>t0\<close> (the clock reading that
  \<^verbatim>\<open>save\<close> adds the TTL to), its row stays in the table, with \<^verbatim>\<open>expires_at\<close> =
  \<open>t0 + 1000 T\<close> ms, or null when \<open>T = 0\<close>.  At every query time \<open>now\<close> the four
  reading operations agree with the filter on that row, which holds when \<open>T = 0\<close> or
  \<open>now < t0 + 1000 T\<close>: \<^verbatim>\<open>sessionExists\<close> returns it, \<^verbatim>\<open>getSessionMetadata\<close> returns
  the row's columns or null, \<^verbatim>\<open>listSessions\<close> lists the name or not, and \<^verbatim>\<open>extract\<close>
  returns the metadata or raises the error of a session not found or expired.
\<close>

theorem ttl_filtering:
  assumes "healthy st" and "namespaced (table_rows st)"
    and "sessionTTL st = (if T = 0 then None else Some T)"
    and "length (getSessionId session) \<le> 255"
    and "archive_at fsys session d"
    and "save st fsys session tMod t0 tDb = (Inr (), st')"
    and "write_fault fsx path = None"
  shows "\<exists>r. row_of st' session = Some r \<and> expires_at r = (if T = 0 then None else Some (t0 + T * 1000)) \<and>
           (is_active now r \<longleftrightarrow> (T = 0 \<or> now < t0 + T * 1000)) \<and>
           fst (sessionExists st' session now) = Inr ((T = 0 \<or> now < t0 + T * 1000)) \<and>
           fst (getSessionMetadata st' session now) =
             Inr (if T = 0 \<or> now < t0 + T * 1000 then Some (to_session_meta r) else None) \<and>
           (\<exists>l. fst (listSessions st' now) = Inr l \<and>
                (session \<in> set (map info_session l) \<longleftrightarrow> (T = 0 \<or> now < t0 + T * 1000))) \<and>
           fst (extract_session st' fsx session path now tUpd) =
             (if T = 0 \<or> now < t0 + T * 1000 then Inr (metadata r)
              else Inl (Error (''Failed to extract session: Session '' @ session @
                                '' not found or expired'')))"
proof -
  let ?sid = "getSessionId session"
  let ?ex = "if T = 0 then None else Some (t0 + T * 1000)"
  have len: "length ?sid \<le> 255"
    by (rule assms(4))
  have st': "st' = snd (save st fsys session tMod t0 tDb)"
    by (simp add: assms(6))
  note sv = save_healthy_after[OF assms(1,5) len, of tMod t0 tDb, folded st']
  have ex: "saved_expiresAt st t0 = (?ex)"
    by (simp add: saved_expiresAt_def assms(3))
  have ns: "namespaced (table_rows st')"
    by (simp only: sv(4) namespaced_upsert[OF assms(2)])
  obtain r where r: "row_of st' session = Some r" and rex: "expires_at r = (?ex)"
    using row_of_save[OF assms(1,5) len, of tMod t0 tDb, folded st'] ex
    by (cases "row_of st session") simp_all
  have uni: "expires_at x = expires_at r"
    if "x \<in> set (table_rows st')" and "session_id x = ?sid" for x
    using that upsert_rows_expire[of x ?sid d _ "saved_expiresAt st t0" tDb "table_rows st"]
    by (simp add: sv(4) rex ex)
  have act: "is_active now r \<longleftrightarrow> (T = 0 \<or> now < t0 + T * 1000)"
    by (simp add: is_active_def rex)
  from select_active_uniform[OF r uni, of now] obtain ys where
    sel: "sql_select_active ?sid now (table_rows st') = (if is_active now r then r # ys else [])"
    by blast
  have 1: "fst (sessionExists st' session now) = Inr ((T = 0 \<or> now < t0 + T * 1000))"
    by (simp add: sessionExists_healthy[OF sv(2)] sel act)
  have 2: "fst (getSessionMetadata st' session now) =
             Inr (if T = 0 \<or> now < t0 + T * 1000 then Some (to_session_meta r) else None)"
    by (simp add: getSessionMetadata_healthy[OF sv(2)] sel act)
  from r have rmem: "r \<in> set (table_rows st')" and rid: "session_id r = ?sid"
    by (auto simp: row_of_def find_Some_iff in_set_conv_nth)
  have ex_iff: "(\<exists>x\<in>set (table_rows st'). session_id x = ?sid \<and> is_active now x) \<longleftrightarrow>
                  (T = 0 \<or> now < t0 + T * 1000)"
  proof
    assume "\<exists>x\<in>set (table_rows st'). session_id x = ?sid \<and> is_active now x"
    then obtain x where "x \<in> set (table_rows st')" "session_id x = ?sid" "is_active now x"
      by blast
    with uni[of x] act show "(T = 0 \<or> now < t0 + T * 1000)"
      by (simp add: is_active_def)
  next
    assume "(T = 0 \<or> now < t0 + T * 1000)"
    with act rmem rid show "\<exists>x\<in>set (table_rows st'). session_id x = ?sid \<and> is_active now x"
      by blast
  qed
  from listed_iff[OF sv(2) ns, of now session] obtain l where
    l: "fst (listSessions st' now) = Inr l"
      "session \<in> set (map info_session l) \<longleftrightarrow>
        (\<exists>x\<in>set (table_rows st'). session_id x = ?sid \<and> is_active now x)"
    by blast
  from l(2) ex_iff have l2: "session \<in> set (map info_session l) \<longleftrightarrow> (T = 0 \<or> now < t0 + T * 1000)"
    by (rule trans)
  have 3: "\<exists>l. fst (listSessions st' now) = Inr l \<and>
                (session \<in> set (map info_session l) \<longleftrightarrow> (T = 0 \<or> now < t0 + T * 1000))"
    using l(1) l2 by (intro exI conjI)
  have 4: "fst (extract_session st' fsx session path now tUpd) =
             (if T = 0 \<or> now < t0 + T * 1000 then Inr (metadata r)
              else Inl (Error (''Failed to extract session: Session '' @ session @
                                '' not found or expired'')))"
    by (simp add: extract_healthy[OF sv(2)] sel act assms(7) extract_catch_def Error_def)
  from r rex act 1 2 3 4 show ?thesis
    by (intro exI[of _ r] conjI)
qed

theorem ttl_filtering_witness:
  "healthy (fresh_store (Some 60)) \<and> namespaced (table_rows (fresh_store (Some 60))) \<and>
   sessionTTL (fresh_store (Some 60)) = (if (60::int) = 0 then None else Some 60) \<and>
   length (getSessionId ''s'') \<le> 255 \<and>
   save (fresh_store (Some 60)) (archive_fs ''s'' [1, 2, 3]) ''s'' 0 0 0 =
     (Inr (), saved_store (Some 60)) \<and>
   map_option expires_at (row_of (saved_store (Some 60)) ''s'') = Some (Some 60000) \<and>
   fst (sessionExists (saved_store (Some 60)) ''s'' 59999) = Inr True \<and>
   fst (sessionExists (saved_store (Some 60)) ''s'' 60000) = Inr False \<and>
   fst (getSessionMetadata (saved_store (Some 60)) ''s'' 60000) = Inr None \<and>
   fst (extract_session (saved_store (Some 60)) (archive_fs ''s'' []) ''s'' ''out.zip'' 60000 60001) =
     Inl (Error ''Failed to extract session: Session s not found or expired'') \<and>
   sessionTTL (fresh_store None) = (if (0::int) = 0 then None else Some 0) \<and>
   fst (sessionExists (saved_store None) ''s'' 1000000) = Inr True"
proof -
  have len: "length (getSessionId ''s'') \<le> 255"
    by (simp add: getSessionId_def)
  have ns: "namespaced (table_rows (fresh_store ttl))" for ttl
    by (simp add: fresh_store_healthy namespaced_def)
  have ttl: "sessionTTL (fresh_store (Some 60)) = (if (60::int) = 0 then None else Some 60)"
    and ttl0: "sessionTTL (fresh_store None) = (if (0::int) = 0 then None else Some 0)"
    by (simp_all add: fresh_store_def)
  have sv: "save (fresh_store t) (archive_fs ''s'' [1, 2, 3]) ''s'' 0 0 0 = (Inr (), saved_store t)"
    for t
    using save_healthy_after(1)[OF fresh_store_healthy(1) archive_fs_at len, of t "[1, 2, 3]" 0 0 0]
    by (simp add: saved_store_def prod_eq_iff)
  have w: "write_fault (archive_fs ''s'' []) ''out.zip'' = None"
    by (simp add: archive_fs_def)
  note t = ttl_filtering[OF fresh_store_healthy(1) ns ttl len archive_fs_at sv w]
  note z = ttl_filtering[OF fresh_store_healthy(1) ns ttl0 len archive_fs_at sv w]
  from t[of 59999 0] obtain r1 where
    a: "fst (sessionExists (saved_store (Some 60)) ''s'' 59999) =
          Inr ((60::int) = 0 \<or> 59999 < 0 + 60 * (1000::int))"
    by (elim exE conjE)
  from t[of 60000 60001] obtain r2 where
    b: "row_of (saved_store (Some 60)) ''s'' = Some r2"
      "expires_at r2 = (if (60::int) = 0 then None else Some (0 + 60 * 1000))"
      "fst (sessionExists (saved_store (Some 60)) ''s'' 60000) =
         Inr ((60::int) = 0 \<or> 60000 < 0 + 60 * (1000::int))"
      "fst (getSessionMetadata (saved_store (Some 60)) ''s'' 60000) =
         Inr (if (60::int) = 0 \<or> 60000 < 0 + 60 * (1000::int) then Some (to_session_meta r2) else None)"
      "fst (extract_session (saved_store (Some 60)) (archive_fs ''s'' []) ''s'' ''out.zip'' 60000 60001) =
         (if (60::int) = 0 \<or> 60000 < 0 + 60 * (1000::int) then Inr (metadata r2)
          else Inl (Error (''Failed to extract session: Session '' @ ''s'' @ '' not found or expired'')))"
    by (elim exE conjE)
  from z[of 1000000 0] obtain r3 where
    c: "fst (sessionExists (saved_store None) ''s'' 1000000) =
          Inr ((0::int) = 0 \<or> 1000000 < 0 + 0 * (1000::int))"
    by (elim exE conjE)
  show ?thesis
    using a b c len by (simp add: fresh_store_healthy(1) ns sv ttl0[simplified] ttl[simplified])
qed

end
